theory Spec2Isabelle
  imports Main
begin

section \<open>Values, records and errors\<close>

text \<open>
  The score card lives in one SQLite table, \<open>score_card\<close>, read into a pandas
  DataFrame and written back from the change set of a Streamlit data editor. The values
  that travel between Python and SQLite are \<open>None\<close>/\<open>NULL\<close>, Python \<open>int\<close>/\<open>INTEGER\<close>,
  \<open>str\<close>/\<open>TEXT\<close> and, because pandas holds an integer column with a missing value as
  \<open>float64\<close>, the floats whose value is an integer (\<open>Float i\<close> is the float of value
  \<open>i\<close>, a \<open>REAL\<close> in SQLite) and \<open>NaN\<close>. Floats with a fractional part and blobs are
  not among these values. SQLite's column affinity is part of the model where it converts
  between them, a float of integer value to an integer; where it would parse or print a
  value (a text bound for an integer column or for the id, a number bound for a text
  column) the value is kept as it was bound, so the theorems about stored values are stated
  for values of the column's type and for ids that are no texts.
\<close>

datatype val = Null | Integer int | Text string | Float int | NaN

text \<open>The exceptions the code can raise: Python's lookup errors, the overflow raised
  when an \<open>int\<close> does not fit SQLite's 64-bit integer, and the \<open>sqlite3\<close> error classes.\<close>

datatype error =
    IndexError | KeyError | OverflowError
  | ProgrammingError | OperationalError | IntegrityError

text \<open>\<open>IndexError\<close> and \<open>KeyError\<close> are Python's \<open>LookupError\<close>s; the last three are
  subclasses of \<open>sqlite3.Error\<close>.\<close>

fun is_lookup_error :: "error \<Rightarrow> bool" where
  "is_lookup_error IndexError = True"
| "is_lookup_error KeyError = True"
| "is_lookup_error _ = False"

fun is_sqlite_error :: "error \<Rightarrow> bool" where
  "is_sqlite_error ProgrammingError = True"
| "is_sqlite_error OperationalError = True"
| "is_sqlite_error IntegrityError = True"
| "is_sqlite_error _ = False"

text \<open>A Python \<open>dict\<close> with string keys.\<close>

type_synonym dict = "string \<rightharpoonup> val"

text \<open>One row of \<open>score_card\<close>, and one row of a frame read from it. The column \<open>id\<close>
  is \<open>INTEGER PRIMARY KEY\<close>, the rowid, hence always an integer; the other columns accept
  \<open>NULL\<close>.\<close>

record row =
  row_id :: int
  contestant_name :: val
  contestant_id :: val
  total_tops :: val
  total_penalty :: val
  description :: val

text \<open>The table with its \<open>sqlite_sequence\<close> entry (the largest rowid ever handed out,
  kept because of \<open>AUTOINCREMENT\<close>). Rows are held in rowid order, the order in which
  \<open>SELECT *\<close> scans them.\<close>

record table =
  tbl_rows :: "row list"
  tbl_seq :: int

text \<open>The row operations executed on a connection, with the values bound to the
  placeholders in the order of the statement's text.\<close>

datatype statement = Update "val list" | Insert "val list" | Delete "val list"

text \<open>A connection: the committed content of the database file (\<open>None\<close> when the file
  has no table \<open>score_card\<close>), the content as this connection sees it inside its open
  transaction, whether a transaction is open, and the row operations executed so far.
  There is one connection: what other connections do to the file meanwhile is not part of
  the model.\<close>

record connection =
  durable :: "table option"
  view :: "table option"
  in_transaction :: bool
  executed :: "statement list"

text \<open>A DataFrame over the default \<open>RangeIndex\<close>: column labels and the rows.\<close>

record dataframe =
  columns :: "string list"
  data :: "row list"

text \<open>The state of the data editor, \<open>st.session_state.score_card\<close>: the edited rows
  (a dict from row position to the changed cells, in insertion order), the added rows and
  the positions of the deleted rows.\<close>

record changes =
  edited_rows :: "(int \<times> dict) list"
  added_rows :: "dict list"
  deleted_rows :: "int list"

section \<open>SQLite\<close>

definition MAX_ROWID :: int where
  "MAX_ROWID = 9223372036854775807"

definition int64 :: "int \<Rightarrow> bool" where
  "int64 i = (- 9223372036854775808 \<le> i \<and> i \<le> 9223372036854775807)"

text \<open>Binding a Python value to a placeholder: an \<open>int\<close> outside 64 bits raises
  \<open>OverflowError\<close>, and \<open>NaN\<close> is bound as \<open>NULL\<close>.\<close>

fun bind_value :: "val \<Rightarrow> error + val" where
  "bind_value (Integer i) = (if int64 i then Inr (Integer i) else Inl OverflowError)"
| "bind_value NaN = Inr Null"
| "bind_value v = Inr v"

text \<open>Binding the named placeholders of a statement from a mapping, in the order
  they occur; a key the mapping does not supply raises \<open>ProgrammingError\<close>.\<close>

fun bind_params :: "dict \<Rightarrow> string list \<Rightarrow> error + val list" where
  "bind_params d [] = Inr []"
| "bind_params d (k # ks) =
     (case d k of
        None \<Rightarrow> Inl ProgrammingError
      | Some v \<Rightarrow>
          (case bind_value v of
             Inl e \<Rightarrow> Inl e
           | Inr w \<Rightarrow>
               (case bind_params d ks of
                  Inl e \<Rightarrow> Inl e
                | Inr ws \<Rightarrow> Inr (w # ws))))"

text \<open>The columns \<open>contestant_id\<close>, \<open>total_tops\<close> and \<open>total_penalty\<close> are declared
  \<open>INTEGER\<close>: a \<open>REAL\<close> whose value is an integer strictly between the smallest and the
  largest 64-bit integer is stored as that \<open>INTEGER\<close>, any other \<open>REAL\<close> stays.\<close>

fun integer_affinity :: "val \<Rightarrow> val" where
  "integer_affinity (Float i) =
     (if - 9223372036854775808 < i \<and> i < 9223372036854775807 then Integer i else Float i)"
| "integer_affinity v = v"

text \<open>The comparison \<open>id = ?\<close>: an integer and a float of the same value are equal, a
  \<open>NULL\<close> equals nothing.\<close>

fun id_equal :: "int \<Rightarrow> val \<Rightarrow> bool" where
  "id_equal j (Integer k) = (j = k)"
| "id_equal j (Float k) = (j = k)"
| "id_equal j _ = False"

text \<open>\<open>UPDATE score_card SET contestant_name = ?, contestant_id = ?, total_tops = ?,
  total_penalty = ?, description = ? WHERE id = ?\<close>: every row whose id equals the
  bound value gets the five fields.\<close>

fun sql_update :: "val list \<Rightarrow> table \<Rightarrow> table" where
  "sql_update [name, cid, tops, penalty, descr, k] t =
     t\<lparr>tbl_rows :=
         map (\<lambda>r. if id_equal (row_id r) k
                   then r\<lparr>contestant_name := name, contestant_id := integer_affinity cid,
                          total_tops := integer_affinity tops,
                          total_penalty := integer_affinity penalty, description := descr\<rparr>
                   else r)
           (tbl_rows t)\<rparr>"
| "sql_update _ t = t"

text \<open>\<open>DELETE FROM score_card WHERE id = ?\<close>.\<close>

fun sql_delete :: "val list \<Rightarrow> table \<Rightarrow> table" where
  "sql_delete [k] t = t\<lparr>tbl_rows := filter (\<lambda>r. \<not> id_equal (row_id r) k) (tbl_rows t)\<rparr>"
| "sql_delete _ t = t"

text \<open>The result codes of a failing insert and the exceptions \<open>sqlite3\<close> raises for
  them.\<close>

datatype result_code = SQLITE_FULL | SQLITE_CONSTRAINT | SQLITE_MISMATCH

fun sqlite3_error :: "result_code \<Rightarrow> error" where
  "sqlite3_error SQLITE_FULL = OperationalError"
| "sqlite3_error SQLITE_CONSTRAINT = IntegrityError"
| "sqlite3_error SQLITE_MISMATCH = IntegrityError"

text \<open>The rowid \<open>AUTOINCREMENT\<close> hands out: one more than the largest rowid of the
  table and than the largest ever handed out; none when one of them is the largest 64-bit
  integer (\<open>SQLITE_FULL\<close>).\<close>

definition new_rowid :: "table \<Rightarrow> result_code + int" where
  "new_rowid t =
     (if (tbl_rows t \<noteq> [] \<and> Max (row_id ` set (tbl_rows t)) \<ge> MAX_ROWID) \<or> tbl_seq t = MAX_ROWID
      then Inl SQLITE_FULL
      else Inr (max (if tbl_rows t = [] then 1 else Max (row_id ` set (tbl_rows t)) + 1)
                    (tbl_seq t + 1)))"

text \<open>\<open>INSERT INTO score_card (id, contestant_name, contestant_id, total_tops,
  total_penalty, description) VALUES (?, ?, ?, ?, ?, ?)\<close>. A \<open>NULL\<close> id lets SQLite
  choose the rowid; an integer id must be unused (\<open>UNIQUE constraint failed\<close>); any other
  id is a \<open>datatype mismatch\<close>.\<close>

definition store_row :: "int \<Rightarrow> val list \<Rightarrow> table \<Rightarrow> table" where
  "store_row k vs t =
     \<lparr>tbl_rows =
        insort_key row_id
          \<lparr>row_id = k, contestant_name = vs ! 0, contestant_id = integer_affinity (vs ! 1),
           total_tops = integer_affinity (vs ! 2), total_penalty = integer_affinity (vs ! 3),
           description = vs ! 4\<rparr>
          (tbl_rows t),
      tbl_seq = max (tbl_seq t) k\<rparr>"

fun sql_insert :: "val list \<Rightarrow> table \<Rightarrow> result_code + table" where
  "sql_insert [k, name, cid, tops, penalty, descr] t =
     (case integer_affinity k of
        Null \<Rightarrow>
          (case new_rowid t of
             Inl rc \<Rightarrow> Inl rc
           | Inr j \<Rightarrow> Inr (store_row j [name, cid, tops, penalty, descr] t))
      | Integer j \<Rightarrow>
          (if j \<in> row_id ` set (tbl_rows t) then Inl SQLITE_CONSTRAINT
           else Inr (store_row j [name, cid, tops, penalty, descr] t))
      | _ \<Rightarrow> Inl SQLITE_MISMATCH)"
| "sql_insert _ t = Inl SQLITE_MISMATCH"

text \<open>Preparing a statement on \<open>score_card\<close> fails with \<open>OperationalError\<close>
  (\<open>no such table\<close>) when the connection knows no such table. Before the first row
  operation outside a transaction, \<open>sqlite3\<close> opens one. \<open>SQLITE_FULL\<close> on a single-row
  insert makes SQLite roll the whole transaction back.\<close>

definition begin_transaction :: "connection \<Rightarrow> connection" where
  "begin_transaction conn = conn\<lparr>in_transaction := True\<rparr>"

definition commit :: "connection \<Rightarrow> connection" where
  "commit conn =
     (if in_transaction conn then conn\<lparr>durable := view conn, in_transaction := False\<rparr>
      else conn)"

definition rollback :: "connection \<Rightarrow> connection" where
  "rollback conn = conn\<lparr>view := durable conn, in_transaction := False\<rparr>"

definition UPDATE_PARAMS :: "string list" where
  "UPDATE_PARAMS =
     [''contestant_name'', ''contestant_id'', ''total_tops'', ''total_penalty'',
      ''description'', ''id'']"

definition INSERT_PARAMS :: "string list" where
  "INSERT_PARAMS =
     [''id'', ''contestant_name'', ''contestant_id'', ''total_tops'', ''total_penalty'',
      ''description'']"

text \<open>One step of \<open>executemany\<close>: bind the parameters, run the statement on the
  connection's view.\<close>

definition execute_update :: "connection \<Rightarrow> dict \<Rightarrow> error + connection" where
  "execute_update conn d =
     (case bind_params d UPDATE_PARAMS of
        Inl e \<Rightarrow> Inl e
      | Inr vs \<Rightarrow>
          (case view conn of
             None \<Rightarrow> Inl OperationalError
           | Some t \<Rightarrow>
               Inr (conn\<lparr>view := Some (sql_update vs t),
                         executed := executed conn @ [Update vs]\<rparr>)))"

definition execute_insert :: "connection \<Rightarrow> dict \<Rightarrow> (error \<times> connection) + connection" where
  "execute_insert conn d =
     (case bind_params d INSERT_PARAMS of
        Inl e \<Rightarrow> Inl (e, conn)
      | Inr vs \<Rightarrow>
          (case view conn of
             None \<Rightarrow> Inl (OperationalError, conn)
           | Some t \<Rightarrow>
               (case sql_insert vs t of
                  Inl rc \<Rightarrow>
                    Inl (sqlite3_error rc, if rc = SQLITE_FULL then rollback conn else conn)
                | Inr t' \<Rightarrow>
                    Inr (conn\<lparr>view := Some t', executed := executed conn @ [Insert vs]\<rparr>))))"

definition execute_delete :: "connection \<Rightarrow> dict \<Rightarrow> error + connection" where
  "execute_delete conn d =
     (case bind_params d [''id''] of
        Inl e \<Rightarrow> Inl e
      | Inr vs \<Rightarrow>
          (case view conn of
             None \<Rightarrow> Inl OperationalError
           | Some t \<Rightarrow>
               Inr (conn\<lparr>view := Some (sql_delete vs t),
                         executed := executed conn @ [Delete vs]\<rparr>)))"

text \<open>\<open>cursor.execute("SELECT * FROM score_card")\<close> followed by \<open>fetchall\<close>.\<close>

definition execute_select :: "connection \<Rightarrow> error + row list" where
  "execute_select conn =
     (case view conn of None \<Rightarrow> Inl OperationalError | Some t \<Rightarrow> Inr (tbl_rows t))"

text \<open>\<open>executemany\<close> prepares the statement, opens the transaction and then draws the
  parameter sets one by one; after a failure other than \<open>SQLITE_FULL\<close> the earlier row
  operations stay in the open transaction.\<close>

definition prepare :: "connection \<Rightarrow> error + connection" where
  "prepare conn =
     (case view conn of None \<Rightarrow> Inl OperationalError | Some t \<Rightarrow> Inr (begin_transaction conn))"

fun update_loop :: "connection \<Rightarrow> dict list \<Rightarrow> (error \<times> connection) + connection" where
  "update_loop conn [] = Inr conn"
| "update_loop conn (d # ds) =
     (case execute_update conn d of
        Inl e \<Rightarrow> Inl (e, conn)
      | Inr conn' \<Rightarrow> update_loop conn' ds)"

fun insert_loop :: "connection \<Rightarrow> dict list \<Rightarrow> (error \<times> connection) + connection" where
  "insert_loop conn [] = Inr conn"
| "insert_loop conn (d # ds) =
     (case execute_insert conn d of
        Inl x \<Rightarrow> Inl x
      | Inr conn' \<Rightarrow> insert_loop conn' ds)"

definition executemany_update ::
  "connection \<Rightarrow> dict list \<Rightarrow> (error \<times> connection) + connection" where
  "executemany_update conn ds =
     (case prepare conn of Inl e \<Rightarrow> Inl (e, conn) | Inr conn' \<Rightarrow> update_loop conn' ds)"

definition executemany_insert ::
  "connection \<Rightarrow> dict list \<Rightarrow> (error \<times> connection) + connection" where
  "executemany_insert conn ds =
     (case prepare conn of Inl e \<Rightarrow> Inl (e, conn) | Inr conn' \<Rightarrow> insert_loop conn' ds)"

section \<open>pandas\<close>

definition SCORE_CARD_COLUMNS :: "string list" where
  "SCORE_CARD_COLUMNS =
     [''id'', ''contestant_name'', ''contestant_id'', ''total_tops'', ''total_penalty'',
      ''description'']"

text \<open>The float nearest to an integer, ties to the even mantissa: a \<open>float64\<close> has 53
  bits of mantissa, so \<open>scale n\<close> is the power of two by which \<open>n\<close> is divided to fit.\<close>

function scale :: "nat \<Rightarrow> nat" where
  "scale n = (if n < 9007199254740992 then 1 else 2 * scale (n div 2))"
  by pat_completeness auto
termination
  by (relation "measure id") auto

definition to_double :: "int \<Rightarrow> int" where
  "to_double i =
     (let n = nat \<bar>i\<bar>; q = scale n; m = n div q; r = n mod q;
          m' = (if q < 2 * r \<or> (2 * r = q \<and> odd m) then m + 1 else m)
      in sgn i * int (m' * q))"

text \<open>\<open>pd.DataFrame(data, columns=...)\<close> infers the type of each column from its
  values. A column of integers stays \<open>int64\<close> and a column with a text or with nothing
  but \<open>None\<close> stays a column of objects; a column of numbers that are not all integers,
  or of integers and \<open>None\<close>, becomes \<open>float64\<close>: \<open>None\<close> turns into \<open>NaN\<close> and an
  integer into the nearest float.\<close>

fun is_text :: "val \<Rightarrow> bool" where
  "is_text (Text s) = True"
| "is_text _ = False"

fun is_integer :: "val \<Rightarrow> bool" where
  "is_integer (Integer i) = True"
| "is_integer _ = False"

fun is_number :: "val \<Rightarrow> bool" where
  "is_number (Integer i) = True"
| "is_number (Float i) = True"
| "is_number _ = False"

definition float64 :: "val list \<Rightarrow> bool" where
  "float64 vs =
     (\<not> list_ex is_text vs \<and> list_ex is_number vs \<and> \<not> list_all is_integer vs)"

fun to_float :: "val \<Rightarrow> val" where
  "to_float Null = NaN"
| "to_float (Integer i) = Float (to_double i)"
| "to_float v = v"

definition cell :: "bool \<Rightarrow> val \<Rightarrow> val" where
  "cell as_float v = (if as_float then to_float v else v)"

definition from_records :: "row list \<Rightarrow> row list" where
  "from_records rows =
     map (\<lambda>r. \<lparr>row_id = row_id r,
               contestant_name = cell (float64 (map contestant_name rows)) (contestant_name r),
               contestant_id = cell (float64 (map contestant_id rows)) (contestant_id r),
               total_tops = cell (float64 (map total_tops rows)) (total_tops r),
               total_penalty = cell (float64 (map total_penalty rows)) (total_penalty r),
               description = cell (float64 (map description rows)) (description r)\<rparr>)
       rows"

definition row_values :: "row \<Rightarrow> val list" where
  "row_values r =
     [Integer (row_id r), contestant_name r, contestant_id r, total_tops r, total_penalty r,
      description r]"

text \<open>\<open>Series.to_dict()\<close> of a row of the frame: column label to value.\<close>

definition to_dict :: "dataframe \<Rightarrow> row \<Rightarrow> dict" where
  "to_dict df r = map_of (zip (columns df) (row_values r))"

text \<open>\<open>df.iloc[i]\<close>: by position, a negative position counting from the end, and
  \<open>IndexError\<close> out of bounds.\<close>

definition iloc :: "dataframe \<Rightarrow> int \<Rightarrow> error + row" where
  "iloc df i =
     (let n = int (length (data df)); j = (if i < 0 then n + i else i)
      in if 0 \<le> j \<and> j < n then Inr (data df ! nat j) else Inl IndexError)"

text \<open>\<open>int(df.loc[i, "id"])\<close>: by label, and the labels of the \<open>RangeIndex\<close> are
  \<open>0 .. n - 1\<close>; a label or a column that is absent raises \<open>KeyError\<close>. The column
  \<open>id\<close> of a frame holds the rows' integer ids.\<close>

definition loc_id :: "dataframe \<Rightarrow> int \<Rightarrow> error + int" where
  "loc_id df i =
     (if 0 \<le> i \<and> i < int (length (data df)) \<and> ''id'' \<in> set (columns df)
      then Inr (row_id (data df ! nat i)) else Inl KeyError)"

text \<open>\<open>defaultdict(lambda: None, row)\<close>: a key that is absent reads as \<open>None\<close>.\<close>

definition defaultdict_None :: "dict \<Rightarrow> dict" where
  "defaultdict_None d = (\<lambda>k. Some (case d k of None \<Rightarrow> Null | Some v \<Rightarrow> v))"

section \<open>The application\<close>

text \<open>\<open>connect_db\<close>: whether the database file exists is read before \<open>sqlite3.connect\<close>
  creates it. The argument is the file: \<open>None\<close> when it does not exist, else its content.
  The file exists afterwards, with the content \<open>durable\<close> of the connection.\<close>

definition connect_db :: "table option option \<Rightarrow> connection \<times> bool" where
  "connect_db file =
     (let db_already_exists = (file \<noteq> None);
          d = (case file of None \<Rightarrow> None | Some db \<Rightarrow> db);
          conn = \<lparr>durable = d, view = d, in_transaction = False, executed = []\<rparr>;
          db_was_just_created = (\<not> db_already_exists)
      in (conn, db_was_just_created))"

text \<open>\<open>CREATE TABLE IF NOT EXISTS score_card (...)\<close>; outside a transaction the
  statement is committed at once.\<close>

definition create_table :: "connection \<Rightarrow> connection" where
  "create_table conn =
     (case view conn of
        Some t \<Rightarrow> conn
      | None \<Rightarrow>
          (let t = Some \<lparr>tbl_rows = [], tbl_seq = 0\<rparr>
           in if in_transaction conn then conn\<lparr>view := t\<rparr>
              else conn\<lparr>view := t, durable := t\<rparr>))"

definition SEED :: "(string \<times> int) list" where
  "SEED =
     [(''Azrai'', 2501), (''Fais'', 2502), (''Avish'', 2503), (''Clarence'', 2504),
      (''Shah'', 2505), (''Shakel'', 2506), (''Shaa'', 2507), (''Joe'', 2508),
      (''Meng'', 2509), (''Jien'', 2510), (''Paan'', 2511), (''Fatin'', 2512),
      (''Perong'', 2513), (''Oliver'', 2514)]"

text \<open>The seed \<open>INSERT\<close> names five columns, so the id of each row is \<open>NULL\<close>; it is
  one statement, and a statement that fails leaves no row behind.\<close>

definition seed_values :: "string \<times> int \<Rightarrow> val list" where
  "seed_values s = [Null, Text (fst s), Integer (snd s), Integer 0, Integer 0, Text []]"

fun insert_values :: "val list list \<Rightarrow> table \<Rightarrow> result_code + table" where
  "insert_values [] t = Inr t"
| "insert_values (vs # vss) t =
     (case sql_insert vs t of Inl e \<Rightarrow> Inl e | Inr t' \<Rightarrow> insert_values vss t')"

definition initialize_data :: "connection \<Rightarrow> (error \<times> connection) + connection" where
  "initialize_data conn =
     (let conn1 = create_table conn
      in case view conn1 of
           None \<Rightarrow> Inl (OperationalError, conn1)
         | Some t \<Rightarrow>
             (case insert_values (map seed_values SEED) t of
                Inl rc \<Rightarrow> Inl (sqlite3_error rc, begin_transaction conn1)
              | Inr t' \<Rightarrow>
                  Inr (commit ((begin_transaction conn1)
                         \<lparr>view := Some t',
                          executed := executed conn1 @ map (\<lambda>s. Insert (seed_values s)) SEED\<rparr>))))"

text \<open>\<open>load_data\<close>: the bare \<open>except\<close> turns every failure of the query into the
  result \<open>None\<close>.\<close>

definition load_data_of :: "error + row list \<Rightarrow> dataframe option" where
  "load_data_of outcome =
     (case outcome of
        Inl e \<Rightarrow> None
      | Inr rows \<Rightarrow> Some \<lparr>columns = SCORE_CARD_COLUMNS, data = from_records rows\<rparr>)"

definition load_data :: "connection \<Rightarrow> dataframe option" where
  "load_data conn = load_data_of (execute_select conn)"

text \<open>The loop of \<open>update_data\<close> that builds \<open>rows\<close> from the edited rows.\<close>

fun edited_dicts :: "dataframe \<Rightarrow> (int \<times> dict) list \<Rightarrow> error + dict list" where
  "edited_dicts df [] = Inr []"
| "edited_dicts df ((i, delta) # deltas) =
     (case iloc df i of
        Inl e \<Rightarrow> Inl e
      | Inr r \<Rightarrow>
          (case edited_dicts df deltas of
             Inl e \<Rightarrow> Inl e
           | Inr rows \<Rightarrow> Inr ((to_dict df r ++ delta) # rows)))"

text \<open>The \<open>executemany\<close> of the deletes draws \<open>{"id": int(df.loc[i, "id"])}\<close> from a
  generator, so each position is looked up only when its turn comes.\<close>

fun delete_loop ::
  "connection \<Rightarrow> dataframe \<Rightarrow> int list \<Rightarrow> (error \<times> connection) + connection" where
  "delete_loop conn df [] = Inr conn"
| "delete_loop conn df (i # is) =
     (case loc_id df i of
        Inl e \<Rightarrow> Inl (e, conn)
      | Inr k \<Rightarrow>
          (case execute_delete conn [''id'' \<mapsto> Integer k] of
             Inl e \<Rightarrow> Inl (e, conn)
           | Inr conn' \<Rightarrow> delete_loop conn' df is))"

definition executemany_delete ::
  "connection \<Rightarrow> dataframe \<Rightarrow> int list \<Rightarrow> (error \<times> connection) + connection" where
  "executemany_delete conn df is =
     (case prepare conn of Inl e \<Rightarrow> Inl (e, conn) | Inr conn' \<Rightarrow> delete_loop conn' df is)"

text \<open>\<open>update_data(conn, df, changes)\<close>. The edited rows are read from
  \<open>st.session_state.score_card\<close>, the last argument; the page passes that same object
  as \<open>changes\<close>. An exception leaves the function before \<open>conn.commit()\<close>; the result
  then carries the connection as the exception found it.\<close>

definition update_edited ::
  "connection \<Rightarrow> dataframe \<Rightarrow> changes \<Rightarrow> changes \<Rightarrow> (error \<times> connection) + connection" where
  "update_edited conn df changes score_card =
     (if edited_rows changes \<noteq> [] then
        (case edited_dicts df (edited_rows score_card) of
           Inl e \<Rightarrow> Inl (e, conn)
         | Inr rows \<Rightarrow> executemany_update conn rows)
      else Inr conn)"

definition update_added :: "connection \<Rightarrow> changes \<Rightarrow> (error \<times> connection) + connection" where
  "update_added conn changes =
     (if added_rows changes \<noteq> [] then
        executemany_insert conn (map defaultdict_None (added_rows changes))
      else Inr conn)"

definition update_deleted ::
  "connection \<Rightarrow> dataframe \<Rightarrow> changes \<Rightarrow> (error \<times> connection) + connection" where
  "update_deleted conn df changes =
     (if deleted_rows changes \<noteq> [] then executemany_delete conn df (deleted_rows changes)
      else Inr conn)"

definition update_data ::
  "connection \<Rightarrow> dataframe \<Rightarrow> changes \<Rightarrow> changes \<Rightarrow> (error \<times> connection) + connection" where
  "update_data conn df changes score_card =
     (case update_edited conn df changes score_card of
        Inl x \<Rightarrow> Inl x
      | Inr conn1 \<Rightarrow>
          (case update_added conn1 changes of
             Inl x \<Rightarrow> Inl x
           | Inr conn2 \<Rightarrow>
               (case update_deleted conn2 df changes of
                  Inl x \<Rightarrow> Inl x
                | Inr conn3 \<Rightarrow> Inr (commit conn3))))"

text \<open>The start of every page run: connect, and initialise if the file was just
  created.\<close>

definition connect_and_initialize ::
  "table option option \<Rightarrow> (error \<times> connection) + connection" where
  "connect_and_initialize file =
     (let (conn, db_was_just_created) = connect_db file
      in if db_was_just_created then initialize_data conn else Inr conn)"


section \<open>Derived notions and sample data\<close>

text \<open>The connection an outcome of \<open>update_data\<close> leaves behind, whether it returned
  or raised.\<close>

definition outcome_conn :: "(error \<times> connection) + connection \<Rightarrow> connection" where
  "outcome_conn x = (case x of Inl (e, c) \<Rightarrow> c | Inr c \<Rightarrow> c)"

text \<open>A small score card: three rows with the ids 1, 2 and 5, read into a frame over a
  connection with no open transaction.\<close>

definition sample_rows :: "row list" where
  "sample_rows =
     [\<lparr>row_id = 1, contestant_name = Text ''Fais'', contestant_id = Integer 2502,
       total_tops = Integer 0, total_penalty = Integer 0, description = Text []\<rparr>,
      \<lparr>row_id = 2, contestant_name = Text ''Avish'', contestant_id = Integer 2503,
       total_tops = Integer 2, total_penalty = Integer 0, description = Null\<rparr>,
      \<lparr>row_id = 5, contestant_name = Text ''Azrai'', contestant_id = Integer 2501,
       total_tops = Integer 3, total_penalty = Integer 1, description = Text []\<rparr>]"

definition sample_table :: table where
  "sample_table = \<lparr>tbl_rows = sample_rows, tbl_seq = 7\<rparr>"

definition sample_conn :: connection where
  "sample_conn =
     \<lparr>durable = Some sample_table, view = Some sample_table, in_transaction = False,
      executed = []\<rparr>"

definition sample_df :: dataframe where
  "sample_df = \<lparr>columns = SCORE_CARD_COLUMNS, data = sample_rows\<rparr>"

text \<open>A batch over the sample frame with one edit, one delete of a row of the frame and
  one delete of a position the frame does not have.\<close>

definition stale_delete_changes :: changes where
  "stale_delete_changes =
     \<lparr>edited_rows = [(0, [''total_tops'' \<mapsto> Integer 4])], added_rows = [],
      deleted_rows = [1, 3]\<rparr>"

definition no_changes :: changes where
  "no_changes = \<lparr>edited_rows = [], added_rows = [], deleted_rows = []\<rparr>"

text \<open>The rows the seed statement stores in an empty table: the ids count from 1.\<close>

definition seed_row :: "int \<times> string \<times> int \<Rightarrow> row" where
  "seed_row x =
     \<lparr>row_id = fst x, contestant_name = Text (fst (snd x)), contestant_id = Integer (snd (snd x)),
      total_tops = Integer 0, total_penalty = Integer 0, description = Text []\<rparr>"

definition seeded_table :: table where
  "seeded_table = \<lparr>tbl_rows = map seed_row (zip [1..14] SEED), tbl_seq = 14\<rparr>"

text \<open>A value that can be bound: every value but an \<open>int\<close> of more than 64 bits. What
  is bound for it, and what an \<open>INTEGER\<close> column then stores.\<close>

definition bindable :: "val \<Rightarrow> bool" where
  "bindable v = (case v of Integer i \<Rightarrow> int64 i | _ \<Rightarrow> True)"

definition bound :: "val \<Rightarrow> val" where
  "bound v = (if v = NaN then Null else v)"

definition stored :: "val \<Rightarrow> val" where
  "stored v = integer_affinity (bound v)"

text \<open>The values of the type of a column, as a frame holds them and as the data editor
  returns them: a text or nothing for the text columns \<open>contestant_name\<close> and
  \<open>description\<close>; a 64-bit integer, a float (of integer value), \<open>NaN\<close> or nothing for
  the integer columns \<open>contestant_id\<close>, \<open>total_tops\<close> and \<open>total_penalty\<close>.\<close>

fun text_value :: "val \<Rightarrow> bool" where
  "text_value Null = True"
| "text_value (Text s) = True"
| "text_value _ = False"

fun int_value :: "val \<Rightarrow> bool" where
  "int_value (Text s) = False"
| "int_value (Integer i) = int64 i"
| "int_value _ = True"

definition typed_row :: "row \<Rightarrow> bool" where
  "typed_row r =
     (int64 (row_id r) \<and> text_value (contestant_name r) \<and> int_value (contestant_id r) \<and>
      int_value (total_tops r) \<and> int_value (total_penalty r) \<and> text_value (description r))"

text \<open>The value of field \<open>k\<close> after overlaying the partial record \<open>delta\<close> on a value
  \<open>v\<close> of the snapshot: the partial record wins, a field it lacks keeps \<open>v\<close>.\<close>

definition pick :: "dict \<Rightarrow> string \<Rightarrow> val \<Rightarrow> val" where
  "pick delta k v = (case delta k of None \<Rightarrow> v | Some w \<Rightarrow> w)"

text \<open>A partial record whose fields, where present, have the type of their column (the
  id apart).\<close>

definition typed_partial :: "dict \<Rightarrow> bool" where
  "typed_partial d =
     (text_value (pick d ''contestant_name'' Null) \<and> int_value (pick d ''contestant_id'' Null) \<and>
      int_value (pick d ''total_tops'' Null) \<and> int_value (pick d ''total_penalty'' Null) \<and>
      text_value (pick d ''description'' Null))"

text \<open>The snapshot row with the partial record's fields overlaid; the id is the
  snapshot's.\<close>

definition overlay :: "row \<Rightarrow> dict \<Rightarrow> row" where
  "overlay r delta =
     \<lparr>row_id = row_id r,
      contestant_name = pick delta ''contestant_name'' (contestant_name r),
      contestant_id = pick delta ''contestant_id'' (contestant_id r),
      total_tops = pick delta ''total_tops'' (total_tops r),
      total_penalty = pick delta ''total_penalty'' (total_penalty r),
      description = pick delta ''description'' (description r)\<rparr>"

text \<open>A row as the table stores it: \<open>NaN\<close> as \<open>NULL\<close>, and in the integer columns a
  float as the integer of its value. A row without floats is stored as it is.\<close>

definition stored_row :: "row \<Rightarrow> row" where
  "stored_row r =
     \<lparr>row_id = row_id r, contestant_name = bound (contestant_name r),
      contestant_id = stored (contestant_id r), total_tops = stored (total_tops r),
      total_penalty = stored (total_penalty r), description = bound (description r)\<rparr>"

text \<open>The values of an update staged for a snapshot row and a partial record, in the
  order of the statement's placeholders: the five overlaid fields and the id the
  \<open>WHERE\<close> clause compares with.\<close>

definition merged_values :: "row \<Rightarrow> dict \<Rightarrow> val list" where
  "merged_values r delta =
     [contestant_name (overlay r delta), contestant_id (overlay r delta),
      total_tops (overlay r delta), total_penalty (overlay r delta),
      description (overlay r delta), pick delta ''id'' (Integer (row_id r))]"

text \<open>Row \<open>r\<close> with its five data fields replaced by those of \<open>src\<close>.\<close>

definition set_fields :: "row \<Rightarrow> row \<Rightarrow> row" where
  "set_fields src r =
     r\<lparr>contestant_name := contestant_name src, contestant_id := contestant_id src,
       total_tops := total_tops src, total_penalty := total_penalty src,
       description := description src\<rparr>"

text \<open>An update keyed by the id \<open>k\<close> that stores the fields of \<open>src\<close>: the rows with
  that id get the fields, every other row stays.\<close>

definition update_by_id :: "int \<Rightarrow> row \<Rightarrow> table \<Rightarrow> table" where
  "update_by_id k src t =
     t\<lparr>tbl_rows := map (\<lambda>r. if row_id r = k then set_fields src r else r) (tbl_rows t)\<rparr>"

text \<open>The snapshot row an edit or a delete at position \<open>i\<close> refers to.\<close>

definition snapshot_row :: "dataframe \<Rightarrow> int \<Rightarrow> row" where
  "snapshot_row df i = data df ! nat i"

definition in_snapshot :: "dataframe \<Rightarrow> int \<Rightarrow> bool" where
  "in_snapshot df i = (0 \<le> i \<and> i < int (length (data df)))"

text \<open>Sample batches: the edit of the specification's example (\<open>total_tops\<close> of the
  row with id 5, at position 2, becomes 4), and an edit at the same position whose partial
  record carries the id 1.\<close>

definition tops_edit_changes :: changes where
  "tops_edit_changes =
     \<lparr>edited_rows = [(2, [''total_tops'' \<mapsto> Integer 4])], added_rows = [],
      deleted_rows = []\<rparr>"


text \<open>A delete keyed by the id \<open>k\<close>: exactly the rows with that id go.\<close>

definition delete_by_id :: "int \<Rightarrow> table \<Rightarrow> table" where
  "delete_by_id k t = t\<lparr>tbl_rows := filter (\<lambda>r. row_id r \<noteq> k) (tbl_rows t)\<rparr>"

text \<open>The live table of a connection on which, since the sample frame was read, the row
  with id 1 was deleted and a row with id 9 added: the rows of the frame at the positions
  1 and 2 are now at the positions 0 and 1.\<close>

definition moved_table :: table where
  "moved_table =
     \<lparr>tbl_rows =
        [\<lparr>row_id = 2, contestant_name = Text ''Avish'', contestant_id = Integer 2503,
          total_tops = Integer 2, total_penalty = Integer 0, description = Null\<rparr>,
         \<lparr>row_id = 5, contestant_name = Text ''Azrai'', contestant_id = Integer 2501,
          total_tops = Integer 3, total_penalty = Integer 1, description = Text []\<rparr>,
         \<lparr>row_id = 9, contestant_name = Text ''Meng'', contestant_id = Integer 2509,
          total_tops = Integer 1, total_penalty = Integer 0, description = Text []\<rparr>],
      tbl_seq = 9\<rparr>"

definition moved_conn :: connection where
  "moved_conn =
     \<lparr>durable = Some moved_table, view = Some moved_table, in_transaction = False,
      executed = []\<rparr>"

definition delete_changes :: changes where
  "delete_changes = \<lparr>edited_rows = [], added_rows = [], deleted_rows = [2]\<rparr>"





text \<open>A connection with an open transaction: the committed table is the sample table, the
  transaction has changed it to \<open>moved_table\<close>.\<close>

definition pending_conn :: connection where
  "pending_conn =
     \<lparr>durable = Some sample_table, view = Some moved_table, in_transaction = True,
      executed = []\<rparr>"

text \<open>The value the \<open>WHERE\<close> clause of an edit's update compares the ids with: the id
  of the partial record when it has one, else the id of the snapshot row, as bound.\<close>

definition target :: "row \<Rightarrow> dict \<Rightarrow> val" where
  "target r delta = bound (pick delta ''id'' (Integer (row_id r)))"

text \<open>An id that is no text: absent, nothing, a 64-bit integer or a float.\<close>

definition numeric_id :: "dict \<Rightarrow> bool" where
  "numeric_id d = (\<not> is_text (pick d ''id'' Null) \<and> bindable (pick d ''id'' Null))"

text \<open>An update that stores the fields of \<open>src\<close> in the rows whose id equals the value
  \<open>v\<close>; \<open>update_by_id k\<close> is the case of an integer \<open>k\<close>.\<close>

definition update_matching :: "val \<Rightarrow> row \<Rightarrow> table \<Rightarrow> table" where
  "update_matching v src t =
     t\<lparr>tbl_rows :=
         map (\<lambda>r. if id_equal (row_id r) v then set_fields src r else r) (tbl_rows t)\<rparr>"

text \<open>A value as a table holds it and a frame without missing numbers shows it: nothing,
  an integer or a text. Such a value is stored as it is.\<close>

fun plain_value :: "val \<Rightarrow> bool" where
  "plain_value (Float i) = False"
| "plain_value NaN = False"
| "plain_value _ = True"

definition plain_row :: "row \<Rightarrow> bool" where
  "plain_row r =
     (plain_value (contestant_name r) \<and> plain_value (contestant_id r) \<and>
      plain_value (total_tops r) \<and> plain_value (total_penalty r) \<and>
      plain_value (description r))"


text \<open>The values bound for an added row, in the order of the insert's placeholders: the
  value of the partial record, \<open>NULL\<close> for a field it lacks.\<close>

definition added_values :: "dict \<Rightarrow> val list" where
  "added_values d =
     [bound (pick d ''id'' Null), bound (pick d ''contestant_name'' Null),
      bound (pick d ''contestant_id'' Null), bound (pick d ''total_tops'' Null),
      bound (pick d ''total_penalty'' Null), bound (pick d ''description'' Null)]"

text \<open>The row stored for an added row under the id \<open>k\<close>.\<close>

definition new_row :: "int \<Rightarrow> dict \<Rightarrow> row" where
  "new_row k d =
     \<lparr>row_id = k, contestant_name = bound (pick d ''contestant_name'' Null),
      contestant_id = stored (pick d ''contestant_id'' Null),
      total_tops = stored (pick d ''total_tops'' Null),
      total_penalty = stored (pick d ''total_penalty'' Null),
      description = bound (pick d ''description'' Null)\<rparr>"

text \<open>The next id \<open>AUTOINCREMENT\<close> assigns.\<close>

definition next_id :: "table \<Rightarrow> int" where
  "next_id t =
     max (if tbl_rows t = [] then 1 else Max (row_id ` set (tbl_rows t)) + 1) (tbl_seq t + 1)"

text \<open>The id an added row asks for, as stored; the id its row gets, which is the next id
  when it asks for none; whether the row can be inserted, which needs a next id within 64
  bits or an integer id that no row of the table has; and the table after the insert.\<close>

definition given_id :: "dict \<Rightarrow> val" where
  "given_id d = stored (pick d ''id'' Null)"

definition chosen_id :: "table \<Rightarrow> dict \<Rightarrow> int" where
  "chosen_id t d = (case given_id d of Integer j \<Rightarrow> j | _ \<Rightarrow> next_id t)"

definition can_insert :: "table \<Rightarrow> dict \<Rightarrow> bool" where
  "can_insert t d =
     (case given_id d of
        Null \<Rightarrow> next_id t \<le> MAX_ROWID
      | Integer j \<Rightarrow> j \<notin> row_id ` set (tbl_rows t)
      | _ \<Rightarrow> False)"

definition insert_one :: "table \<Rightarrow> dict \<Rightarrow> table" where
  "insert_one t d =
     \<lparr>tbl_rows = insort_key row_id (new_row (chosen_id t d) d) (tbl_rows t),
      tbl_seq = max (tbl_seq t) (chosen_id t d)\<rparr>"

fun insertable :: "table \<Rightarrow> dict list \<Rightarrow> bool" where
  "insertable t [] = True"
| "insertable t (d # ds) = (can_insert t d \<and> insertable (insert_one t d) ds)"

text \<open>The table after the insert of an added row without id: the new row comes last.\<close>

definition auto_insert :: "table \<Rightarrow> dict \<Rightarrow> table" where
  "auto_insert t d =
     \<lparr>tbl_rows = tbl_rows t @ [new_row (next_id t) d], tbl_seq = next_id t\<rparr>"

text \<open>The rows stored for a list of added rows, the first under the id \<open>k\<close>.\<close>

fun appended :: "int \<Rightarrow> dict list \<Rightarrow> row list" where
  "appended k [] = []"
| "appended k (d # ds) = new_row k d # appended (k + 1) ds"

text \<open>Sample batches of added rows: the one of the specification's example followed by an
  empty partial record, and one whose added row asks for the id 3.\<close>

definition insert_changes :: changes where
  "insert_changes =
     \<lparr>edited_rows = [], added_rows = [[''contestant_name'' \<mapsto> Text ''New''], Map.empty],
      deleted_rows = []\<rparr>"

definition id_insert_changes :: changes where
  "id_insert_changes =
     \<lparr>edited_rows = [],
      added_rows = [[''id'' \<mapsto> Integer 3, ''total_tops'' \<mapsto> Float 1], Map.empty],
      deleted_rows = []\<rparr>"

text \<open>What one staged update does to one row of the table: the row with the id of the
  snapshot row at the edit's position gets the fields of that snapshot row with the
  partial record overlaid, as they are stored.\<close>

definition edit_step :: "row list \<Rightarrow> row \<Rightarrow> int \<times> dict \<Rightarrow> row" where
  "edit_step rows r x =
     (if row_id r = row_id (rows ! nat (fst x))
      then set_fields (stored_row (overlay (rows ! nat (fst x)) (snd x))) r else r)"

text \<open>The table a batch should leave behind: the rows of the table whose position is not
  deleted, in their order, a row without edit as it is and a row with an edit as the
  snapshot row with the partial record overlaid is stored, followed by one new row per
  added row, in the order of the batch, under the next ids.\<close>

definition edited_row :: "table \<Rightarrow> dataframe \<Rightarrow> changes \<Rightarrow> nat \<Rightarrow> row" where
  "edited_row t df changes j =
     (case map_of (edited_rows changes) (int j) of
        None \<Rightarrow> tbl_rows t ! j
      | Some delta \<Rightarrow> stored_row (overlay (data df ! j) delta))"

definition expected_rows :: "table \<Rightarrow> dataframe \<Rightarrow> changes \<Rightarrow> row list" where
  "expected_rows t df changes =
     map (edited_row t df changes)
       (filter (\<lambda>j. int j \<notin> set (deleted_rows changes)) [0..<length (tbl_rows t)]) @
     map2 new_row [next_id t .. next_id t + int (length (added_rows changes)) - 1]
       (added_rows changes)"

text \<open>A batch that is well formed over a snapshot: every position indexes a row of the
  snapshot, no position is edited twice (the edited rows are a dict), no partial record
  carries an id, and the values of the partial records have the types of their columns.\<close>

definition well_formed :: "dataframe \<Rightarrow> changes \<Rightarrow> bool" where
  "well_formed df changes =
     (distinct (map fst (edited_rows changes)) \<and>
      list_all (\<lambda>(i, delta). in_snapshot df i \<and> delta ''id'' = None \<and> typed_partial delta)
        (edited_rows changes) \<and>
      list_all (\<lambda>d. d ''id'' = None \<and> typed_partial d) (added_rows changes) \<and>
      list_all (in_snapshot df) (deleted_rows changes))"

text \<open>Rows none of whose columns a frame holds as \<open>float64\<close>.\<close>

definition object_columns :: "row list \<Rightarrow> bool" where
  "object_columns rows =
     (\<not> float64 (map contestant_name rows) \<and> \<not> float64 (map contestant_id rows) \<and>
      \<not> float64 (map total_tops rows) \<and> \<not> float64 (map total_penalty rows) \<and>
      \<not> float64 (map description rows))"

text \<open>A batch over the sample frame with an edit, two added rows and a delete.\<close>

definition mixed_changes :: changes where
  "mixed_changes =
     \<lparr>edited_rows = [(2, [''total_tops'' \<mapsto> Integer 4])],
      added_rows = [[''contestant_name'' \<mapsto> Text ''New''], Map.empty],
      deleted_rows = [0]\<rparr>"

text \<open>A score card of one row whose \<open>total_tops\<close> is an integer above \<open>2^53\<close>, the
  frame read from it, and a batch that adds the row of the specification's example.\<close>

definition exact_table :: table where
  "exact_table =
     \<lparr>tbl_rows =
        [\<lparr>row_id = 1, contestant_name = Text ''Fais'', contestant_id = Integer 2502,
          total_tops = Integer 9007199254740993, total_penalty = Integer 0,
          description = Text []\<rparr>],
      tbl_seq = 1\<rparr>"

definition exact_conn :: connection where
  "exact_conn =
     \<lparr>durable = Some exact_table, view = Some exact_table, in_transaction = False,
      executed = []\<rparr>"

definition exact_df :: dataframe where
  "exact_df = \<lparr>columns = SCORE_CARD_COLUMNS, data = tbl_rows exact_table\<rparr>"

definition new_name_changes :: changes where
  "new_name_changes =
     \<lparr>edited_rows = [], added_rows = [[''contestant_name'' \<mapsto> Text ''New'']],
      deleted_rows = []\<rparr>"

text \<open>Sample batches over the sample frame of three rows: an added row that asks for the
  id 1, which is taken, together with a delete at the position 3, which the frame does not
  have; an edit at the position \<open>-1\<close>; an edit at the position 3; an added row that asks
  for the id 1 together with a delete at a position of the frame. And a connection to a
  file without table, with a batch of one delete.\<close>

definition clash_changes :: changes where
  "clash_changes =
     \<lparr>edited_rows = [], added_rows = [[''id'' \<mapsto> Integer 1]], deleted_rows = [3]\<rparr>"

definition negative_changes :: changes where
  "negative_changes =
     \<lparr>edited_rows = [(- 1, [''total_tops'' \<mapsto> Integer 4])], added_rows = [],
      deleted_rows = []\<rparr>"

definition stale_edit_changes :: changes where
  "stale_edit_changes =
     \<lparr>edited_rows = [(0, [''total_tops'' \<mapsto> Integer 1]), (3, [''total_tops'' \<mapsto> Integer 4])],
      added_rows = [], deleted_rows = []\<rparr>"

definition present_clash_changes :: changes where
  "present_clash_changes =
     \<lparr>edited_rows = [], added_rows = [[''id'' \<mapsto> Integer 1]], deleted_rows = [0]\<rparr>"

definition no_table_conn :: connection where
  "no_table_conn =
     \<lparr>durable = None, view = None, in_transaction = False, executed = []\<rparr>"

definition stale_only_changes :: changes where
  "stale_only_changes = \<lparr>edited_rows = [], added_rows = [], deleted_rows = [3]\<rparr>"

section \<open>A failure leaves before the commit\<close>

lemma outcome_conn_simps [simp]:
  "outcome_conn (Inl (e, c)) = c" "outcome_conn (Inr c) = c"
  by (simp_all add: outcome_conn_def)















lemmas sample_defs =
  sample_rows_def sample_table_def sample_conn_def sample_df_def stale_delete_changes_def
  no_changes_def

lemmas run_defs =
  update_data_def update_edited_def update_added_def update_deleted_def
  executemany_update_def executemany_insert_def executemany_delete_def prepare_def
  begin_transaction_def commit_def rollback_def execute_update_def execute_insert_def
  execute_delete_def iloc_def loc_id_def to_dict_def row_values_def defaultdict_None_def
  SCORE_CARD_COLUMNS_def UPDATE_PARAMS_def INSERT_PARAMS_def int64_def new_rowid_def
  store_row_def MAX_ROWID_def Let_def

lemma loc_id_in_snapshot:
  "in_snapshot df i \<Longrightarrow> ''id'' \<in> set (columns df) \<Longrightarrow>
   loc_id df i = Inr (row_id (snapshot_row df i))"
  by (simp add: in_snapshot_def loc_id_def snapshot_row_def)

lemma execute_delete_ok:
  "view conn = Some t \<Longrightarrow> int64 k \<Longrightarrow>
   execute_delete conn [''id'' \<mapsto> Integer k] =
     Inr (conn\<lparr>view := Some (delete_by_id k t),
               executed := executed conn @ [Delete [Integer k]]\<rparr>)"
  by (simp add: execute_delete_def delete_by_id_def)

lemma delete_loop_ok:
  assumes "''id'' \<in> set (columns df)"
    and "list_all (\<lambda>i. in_snapshot df i \<and> int64 (row_id (snapshot_row df i))) is"
    and "view conn = Some t"
  shows "delete_loop conn df is =
     Inr (conn\<lparr>view := Some (foldl (\<lambda>t i. delete_by_id (row_id (snapshot_row df i)) t) t is),
               executed := executed conn @
                 map (\<lambda>i. Delete [Integer (row_id (snapshot_row df i))]) is\<rparr>)"
  using assms(2,3)
proof (induction "is" arbitrary: conn t)
  case Nil
  then show ?case by simp
next
  case (Cons i "is")
  let ?k = "row_id (snapshot_row df i)"
  let ?c = "conn\<lparr>view := Some (delete_by_id ?k t),
               executed := executed conn @ [Delete [Integer ?k]]\<rparr>"
  from Cons.prems have i: "in_snapshot df i" "int64 ?k" by simp_all
  have l: "loc_id df i = Inr ?k" by (rule loc_id_in_snapshot [OF i(1) assms(1)])
  have e: "execute_delete conn [''id'' \<mapsto> Integer ?k] = Inr ?c"
    by (rule execute_delete_ok [OF Cons.prems(2) i(2)])
  have r: "list_all (\<lambda>i. in_snapshot df i \<and> int64 (row_id (snapshot_row df i))) is"
    using Cons.prems(1) by simp
  have "view ?c = Some (delete_by_id ?k t)" by simp
  from Cons.IH [OF r this] l e show ?case by simp
qed

lemma foldl_delete_by_id:
  "foldl (\<lambda>t i. delete_by_id (f i) t) t is =
     t\<lparr>tbl_rows := filter (\<lambda>r. row_id r \<notin> f ` set is) (tbl_rows t)\<rparr>"
proof (induction "is" arbitrary: t)
  case Nil
  show ?case by simp
next
  case (Cons i "is")
  have f: "filter (\<lambda>r. row_id r \<notin> f ` set is) (filter (\<lambda>r. row_id r \<noteq> f i) (tbl_rows t)) =
        filter (\<lambda>r. row_id r \<notin> f ` set (i # is)) (tbl_rows t)"
    by (auto intro: filter_cong)
  have "foldl (\<lambda>t i. delete_by_id (f i) t) t (i # is) =
        foldl (\<lambda>t i. delete_by_id (f i) t) (delete_by_id (f i) t) is"
    by simp
  also have "\<dots> =
        (delete_by_id (f i) t)\<lparr>tbl_rows :=
           filter (\<lambda>r. row_id r \<notin> f ` set is) (tbl_rows (delete_by_id (f i) t))\<rparr>"
    by (rule Cons.IH)
  also have "\<dots> = t\<lparr>tbl_rows := filter (\<lambda>r. row_id r \<notin> f ` set (i # is)) (tbl_rows t)\<rparr>"
    using f by (simp add: delete_by_id_def)
  finally show ?case .
qed






section \<open>The empty batch\<close>

text \<open>
  Claim C9, as the specification states it, fails on the code: \<open>conn.commit()\<close> runs
  whatever the batch holds, so an empty batch on a connection with an open transaction
  commits what that transaction has changed, and the persisted table is no longer the one
  before the call.
\<close>

theorem empty_batch_counterexample:
  "edited_rows no_changes = [] \<and> added_rows no_changes = [] \<and> deleted_rows no_changes = [] \<and>
   in_transaction pending_conn \<and>
   \<not> isl (update_data pending_conn sample_df no_changes no_changes) \<and>
   durable (projr (update_data pending_conn sample_df no_changes no_changes))
     \<noteq> durable pending_conn"
  by (simp add: no_changes_def pending_conn_def update_data_def update_edited_def
      update_added_def update_deleted_def commit_def sample_table_def moved_table_def
      sample_rows_def)

text \<open>
  Claim C9, amended. With \<open>edited_rows\<close>, \<open>added_rows\<close> and \<open>deleted_rows\<close> all empty,
  \<open>update_data\<close> executes no statement and only commits: the table as the connection
  sees it and the list of executed row operations are those before the call. On a
  connection with no open transaction (as the page passes it) the call returns the
  connection as it was, persisted table included; on a connection with an open
  transaction it makes the table of that transaction the persisted one.
\<close>

theorem update_data_empty_batch:
  assumes "edited_rows changes = []" "added_rows changes = []" "deleted_rows changes = []"
  shows "update_data conn df changes score_card = Inr (commit conn) \<and>
         view (commit conn) = view conn \<and>
         executed (commit conn) = executed conn \<and>
         (\<not> in_transaction conn \<longrightarrow> commit conn = conn) \<and>
         (in_transaction conn \<longrightarrow> durable (commit conn) = view conn)"
  using assms
  by (simp add: update_data_def update_edited_def update_added_def update_deleted_def
      commit_def)

theorem update_data_empty_batch_witness:
  "edited_rows no_changes = [] \<and> added_rows no_changes = [] \<and> deleted_rows no_changes = [] \<and>
   \<not> in_transaction sample_conn \<and>
   update_data sample_conn sample_df no_changes stale_delete_changes = Inr sample_conn \<and>
   in_transaction pending_conn \<and>
   update_data pending_conn sample_df no_changes no_changes = Inr (commit pending_conn) \<and>
   durable (commit pending_conn) = Some moved_table"
proof -
  have e: "edited_rows no_changes = []" "added_rows no_changes = []"
    "deleted_rows no_changes = []"
    by (simp_all add: no_changes_def)
  have n: "\<not> in_transaction sample_conn" "in_transaction pending_conn"
    "view pending_conn = Some moved_table"
    by (simp_all add: sample_conn_def pending_conn_def)
  from update_data_empty_batch [OF e, of sample_conn sample_df stale_delete_changes]
    update_data_empty_batch [OF e, of pending_conn sample_df no_changes] n e
  show ?thesis by simp
qed

section \<open>Seeding\<close>

lemma initialize_data_fresh:
  "initialize_data \<lparr>durable = None, view = None, in_transaction = False, executed = []\<rparr> =
     Inr \<lparr>durable = Some seeded_table, view = Some seeded_table, in_transaction = False,
          executed = map (\<lambda>s. Insert (seed_values s)) SEED\<rparr>"
  by (simp add: initialize_data_def create_table_def SEED_def seed_values_def new_rowid_def
      store_row_def MAX_ROWID_def commit_def begin_transaction_def upto.simps Let_def
      seeded_table_def seed_row_def)

text \<open>
  Claim C6. Connecting when the database file does not exist creates the table and
  stores the 14 seed rows, in the order of the statement, with the ids 1 to 14,
  \<open>total_tops = 0\<close>, \<open>total_penalty = 0\<close> and \<open>description = ""\<close>. Connecting when
  the file exists, whatever it holds (the seeded table, an empty table, no table at
  all), executes nothing: the connection shows the file's content unchanged.
\<close>

theorem connect_and_initialize_seeds_once:
  "connect_and_initialize None =
     Inr \<lparr>durable = Some seeded_table, view = Some seeded_table, in_transaction = False,
          executed = map (\<lambda>s. Insert (seed_values s)) SEED\<rparr> \<and>
   length (tbl_rows seeded_table) = 14 \<and>
   map contestant_name (tbl_rows seeded_table) = map (\<lambda>s. Text (fst s)) SEED \<and>
   map contestant_id (tbl_rows seeded_table) = map (\<lambda>s. Integer (snd s)) SEED \<and>
   map row_id (tbl_rows seeded_table) = [1..14] \<and>
   map total_tops (tbl_rows seeded_table) = replicate 14 (Integer 0) \<and>
   map total_penalty (tbl_rows seeded_table) = replicate 14 (Integer 0) \<and>
   map description (tbl_rows seeded_table) = replicate 14 (Text []) \<and>
   connect_and_initialize (Some db) =
     Inr \<lparr>durable = db, view = db, in_transaction = False, executed = []\<rparr> \<and>
   connect_and_initialize (Some (Some \<lparr>tbl_rows = [], tbl_seq = n\<rparr>)) =
     Inr \<lparr>durable = Some \<lparr>tbl_rows = [], tbl_seq = n\<rparr>,
          view = Some \<lparr>tbl_rows = [], tbl_seq = n\<rparr>, in_transaction = False, executed = []\<rparr>"
proof -
  have a: "connect_and_initialize None =
     Inr \<lparr>durable = Some seeded_table, view = Some seeded_table, in_transaction = False,
          executed = map (\<lambda>s. Insert (seed_values s)) SEED\<rparr>"
    by (simp add: connect_and_initialize_def connect_db_def initialize_data_fresh)
  have b: "\<And>db. connect_and_initialize (Some db) =
     Inr \<lparr>durable = db, view = db, in_transaction = False, executed = []\<rparr>"
    by (simp add: connect_and_initialize_def connect_db_def)
  have c: "length (tbl_rows seeded_table) = 14 \<and>
   map contestant_name (tbl_rows seeded_table) = map (\<lambda>s. Text (fst s)) SEED \<and>
   map contestant_id (tbl_rows seeded_table) = map (\<lambda>s. Integer (snd s)) SEED \<and>
   map row_id (tbl_rows seeded_table) = [1..14] \<and>
   map total_tops (tbl_rows seeded_table) = replicate 14 (Integer 0) \<and>
   map total_penalty (tbl_rows seeded_table) = replicate 14 (Integer 0) \<and>
   map description (tbl_rows seeded_table) = replicate 14 (Text [])"
    by (simp add: seeded_table_def seed_row_def SEED_def upto.simps eval_nat_numeral)
  from a b c show ?thesis by simp
qed


section \<open>Deleting by id\<close>

lemma commit_after_statements:
  "commit (conn\<lparr>view := v, in_transaction := True, executed := x\<rparr>) =
     conn\<lparr>durable := v, view := v, in_transaction := False, executed := x\<rparr>"
  by (simp add: commit_def)

lemma executemany_delete_ok:
  assumes "''id'' \<in> set (columns df)"
    and "list_all (\<lambda>i. in_snapshot df i \<and> int64 (row_id (snapshot_row df i))) is"
    and "view conn = Some t"
  shows "executemany_delete conn df is =
     Inr (conn\<lparr>view := Some (t\<lparr>tbl_rows :=
                    filter (\<lambda>r. row_id r \<notin> (\<lambda>i. row_id (snapshot_row df i)) ` set is)
                      (tbl_rows t)\<rparr>),
               in_transaction := True,
               executed := executed conn @
                 map (\<lambda>i. Delete [Integer (row_id (snapshot_row df i))]) is\<rparr>)"
proof -
  have p: "prepare conn = Inr (begin_transaction conn)"
    using assms(3) by (simp add: prepare_def)
  have v: "view (begin_transaction conn) = Some t"
    using assms(3) by (simp add: begin_transaction_def)
  show ?thesis
    by (simp add: executemany_delete_def p delete_loop_ok [OF assms(1,2) v]
        foldl_delete_by_id)
       (simp add: begin_transaction_def)
qed

text \<open>
  Claim C5. For the deletes of a batch, when their positions index rows of the snapshot,
  \<open>update_data\<close> executes one delete per position, keyed by the id of the snapshot row
  at that position: of the live table, whatever rows it holds and in whatever order,
  exactly the rows whose id is the id of a deleted snapshot row are removed, and every
  other row stays in place. When the batch has nothing but deletes, this is all
  \<open>update_data\<close> does before it commits.
\<close>

theorem update_data_deletes_by_id:
  assumes cols: "columns df = SCORE_CARD_COLUMNS"
    and v: "view conn = Some t"
    and ne: "deleted_rows changes \<noteq> []"
    and ok: "\<forall>i \<in> set (deleted_rows changes).
               in_snapshot df i \<and> int64 (row_id (snapshot_row df i))"
  shows "(\<exists>c. update_deleted conn df changes = Inr c \<and>
     executed c = executed conn @
       map (\<lambda>i. Delete [Integer (row_id (snapshot_row df i))]) (deleted_rows changes) \<and>
     view c =
       Some (t\<lparr>tbl_rows :=
               filter (\<lambda>r. row_id r \<notin>
                        (\<lambda>i. row_id (snapshot_row df i)) ` set (deleted_rows changes))
                 (tbl_rows t)\<rparr>)) \<and>
    (edited_rows changes = [] \<and> added_rows changes = [] \<longrightarrow>
     (\<exists>c. update_data conn df changes score_card = Inr c \<and>
     executed c = executed conn @
       map (\<lambda>i. Delete [Integer (row_id (snapshot_row df i))]) (deleted_rows changes) \<and>
     view c =
       Some (t\<lparr>tbl_rows :=
               filter (\<lambda>r. row_id r \<notin>
                        (\<lambda>i. row_id (snapshot_row df i)) ` set (deleted_rows changes))
                 (tbl_rows t)\<rparr>) \<and>
     durable c = view c))"
proof -
  have c: "''id'' \<in> set (columns df)" by (simp add: cols SCORE_CARD_COLUMNS_def)
  from ok have ok':
    "list_all (\<lambda>i. in_snapshot df i \<and> int64 (row_id (snapshot_row df i)))
       (deleted_rows changes)"
    by (simp only: Ball_set)
  note e = executemany_delete_ok [OF c ok' v]
  show ?thesis
  proof (intro conjI impI)
    show "\<exists>c. update_deleted conn df changes = Inr c \<and>
     executed c = executed conn @
       map (\<lambda>i. Delete [Integer (row_id (snapshot_row df i))]) (deleted_rows changes) \<and>
     view c =
       Some (t\<lparr>tbl_rows :=
               filter (\<lambda>r. row_id r \<notin>
                        (\<lambda>i. row_id (snapshot_row df i)) ` set (deleted_rows changes))
                 (tbl_rows t)\<rparr>)"
      using ne by (simp add: update_deleted_def e)
  next
    assume only: "edited_rows changes = [] \<and> added_rows changes = []"
    have "update_data conn df changes score_card =
        (case executemany_delete conn df (deleted_rows changes) of
           Inl x \<Rightarrow> Inl x | Inr c \<Rightarrow> Inr (commit c))"
      using only ne
      by (simp add: update_data_def update_edited_def update_added_def update_deleted_def)
    then show "\<exists>c. update_data conn df changes score_card = Inr c \<and>
     executed c = executed conn @
       map (\<lambda>i. Delete [Integer (row_id (snapshot_row df i))]) (deleted_rows changes) \<and>
     view c =
       Some (t\<lparr>tbl_rows :=
               filter (\<lambda>r. row_id r \<notin>
                        (\<lambda>i. row_id (snapshot_row df i)) ` set (deleted_rows changes))
                 (tbl_rows t)\<rparr>) \<and>
     durable c = view c"
      by (simp add: e commit_after_statements)
  qed
qed

theorem update_data_deletes_by_id_witness:
  "columns sample_df = SCORE_CARD_COLUMNS \<and> view moved_conn = Some moved_table \<and>
   edited_rows delete_changes = [] \<and> added_rows delete_changes = [] \<and>
   deleted_rows delete_changes = [2] \<and>
   in_snapshot sample_df 2 \<and> row_id (snapshot_row sample_df 2) = 5 \<and>
   (\<exists>c. update_data moved_conn sample_df delete_changes no_changes = Inr c \<and>
      executed c = [Delete [Integer 5]] \<and>
      view c =
        Some \<lparr>tbl_rows =
          [\<lparr>row_id = 2, contestant_name = Text ''Avish'', contestant_id = Integer 2503,
            total_tops = Integer 2, total_penalty = Integer 0, description = Null\<rparr>,
           \<lparr>row_id = 9, contestant_name = Text ''Meng'', contestant_id = Integer 2509,
            total_tops = Integer 1, total_penalty = Integer 0, description = Text []\<rparr>],
          tbl_seq = 9\<rparr> \<and>
      durable c = view c)"
proof -
  have h: "columns sample_df = SCORE_CARD_COLUMNS" "view moved_conn = Some moved_table"
    "edited_rows delete_changes = []" "added_rows delete_changes = []"
    "deleted_rows delete_changes \<noteq> []"
    by (simp_all add: sample_defs moved_conn_def delete_changes_def)
  have d: "deleted_rows delete_changes = [2]" by (simp add: delete_changes_def)
  have s: "in_snapshot sample_df 2" "row_id (snapshot_row sample_df 2) = 5"
    by (simp_all add: sample_defs in_snapshot_def snapshot_row_def)
  have ok: "\<forall>i \<in> set (deleted_rows delete_changes).
               in_snapshot sample_df i \<and> int64 (row_id (snapshot_row sample_df i))"
    using s by (simp add: d int64_def)
  from update_data_deletes_by_id [OF h(1,2,5) ok, of no_changes] h d s
  show ?thesis by (simp add: moved_table_def moved_conn_def)
qed


section \<open>Reading the table\<close>

lemma to_double_at:
  assumes "nat \<bar>i\<bar> = n" "scale n = q" "n div q = m" "n mod q = r"
  shows "to_double i =
    sgn i * int ((if q < 2 * r \<or> (2 * r = q \<and> odd m) then m + 1 else m) * q)"
  using assms by (simp add: to_double_def Let_def del: scale.simps)

lemma scale_small: "n < 9007199254740992 \<Longrightarrow> scale n = 1"
  by simp

lemma to_double_exact:
  assumes "\<bar>i\<bar> \<le> 9007199254740992"
  shows "to_double i = i"
proof (cases "\<bar>i\<bar> = 9007199254740992")
  case True
  then have n: "nat \<bar>i\<bar> = 9007199254740992" by simp
  have s: "scale 9007199254740992 = 2" by simp
  have "to_double i =
    sgn i * int ((if (2::nat) < 2 * 0 \<or> (2 * 0 = (2::nat) \<and> odd (4503599627370496::nat))
                  then 4503599627370496 + 1 else 4503599627370496) * 2)"
    by (rule to_double_at [OF n s]) simp_all
  then have "to_double i = sgn i * 9007199254740992" by simp
  with True show ?thesis by (cases "0 \<le> i") simp_all
next
  case False
  with assms have "nat \<bar>i\<bar> < 9007199254740992" by simp
  then have s: "scale (nat \<bar>i\<bar>) = 1" by (rule scale_small)
  have "to_double i =
    sgn i * int ((if (1::nat) < 2 * 0 \<or> (2 * 0 = (1::nat) \<and> odd (nat \<bar>i\<bar>))
                  then nat \<bar>i\<bar> + 1 else nat \<bar>i\<bar>) * 1)"
    by (rule to_double_at [OF refl s]) simp_all
  then have "to_double i = sgn i * \<bar>i\<bar>" by simp
  then show ?thesis by (simp add: mult_sgn_abs)
qed

lemma to_double_rounds: "to_double 9007199254740993 = 9007199254740992"
proof -
  have n: "nat \<bar>9007199254740993 :: int\<bar> = 9007199254740993" by simp
  have s: "scale 9007199254740993 = 2" by simp
  have "to_double 9007199254740993 =
    sgn 9007199254740993 *
    int ((if (2::nat) < 2 * 1 \<or> (2 * 1 = (2::nat) \<and> odd (4503599627370496::nat))
          then 4503599627370496 + 1 else 4503599627370496) * 2)"
    by (rule to_double_at [OF n s]) simp_all
  then show ?thesis by simp
qed

lemma float64_text_column: "list_all text_value vs \<Longrightarrow> \<not> float64 vs"
proof -
  assume a: "list_all text_value vs"
  have "\<And>v. text_value v \<Longrightarrow> \<not> is_number v"
    by (case_tac v) simp_all
  with a have "\<not> list_ex is_number vs" by (auto simp: list_all_iff list_ex_iff)
  then show ?thesis by (simp add: float64_def)
qed

lemma cell_False: "cell False v = v"
  by (simp add: cell_def)

lemma map_cell_False: "map (cell False) vs = vs"
  by (induction vs) (simp_all add: cell_False)

lemma map_cell_object: "\<not> float64 vs \<Longrightarrow> map (cell (float64 vs)) vs = vs"
  by (simp add: map_cell_False)




section \<open>Staging and executing the edits\<close>

lemma bind_value_bindable: "bindable v \<Longrightarrow> bind_value v = Inr (bound v)"
  by (cases v) (simp_all add: bindable_def bound_def)

lemma text_value_bindable: "text_value v \<Longrightarrow> bindable v"
  by (cases v) (simp_all add: bindable_def)

lemma int_value_bindable: "int_value v \<Longrightarrow> bindable v"
  by (cases v) (simp_all add: bindable_def)

lemma bind_params_merged:
  assumes "columns df = SCORE_CARD_COLUMNS" "list_all bindable (merged_values r delta)"
  shows "bind_params (to_dict df r ++ delta) UPDATE_PARAMS = Inr (map bound (merged_values r delta))"
proof -
  have l: "\<And>k. (to_dict df r ++ delta) k =
     (case delta k of None \<Rightarrow> to_dict df r k | Some w \<Rightarrow> Some w)"
    by (simp add: map_add_def)
  have t: "to_dict df r ''contestant_name'' = Some (contestant_name r)"
    "to_dict df r ''contestant_id'' = Some (contestant_id r)"
    "to_dict df r ''total_tops'' = Some (total_tops r)"
    "to_dict df r ''total_penalty'' = Some (total_penalty r)"
    "to_dict df r ''description'' = Some (description r)"
    "to_dict df r ''id'' = Some (Integer (row_id r))"
    using assms(1) by (simp_all add: to_dict_def SCORE_CARD_COLUMNS_def row_values_def)
  have m: "\<And>k v. to_dict df r k = Some v \<Longrightarrow> (to_dict df r ++ delta) k = Some (pick delta k v)"
    by (simp add: l pick_def split: option.splits)
  show ?thesis
    using assms(2)
    by (simp add: UPDATE_PARAMS_def m [OF t(1)] m [OF t(2)] m [OF t(3)] m [OF t(4)]
        m [OF t(5)] m [OF t(6)] merged_values_def overlay_def bind_value_bindable)
qed

lemma sql_update_merged:
  "sql_update (map bound (merged_values r delta)) t =
     update_matching (target r delta) (stored_row (overlay r delta)) t"
  by (simp add: merged_values_def update_matching_def target_def set_fields_def
      stored_row_def stored_def overlay_def)

lemma update_matching_integer: "update_matching (Integer k) src t = update_by_id k src t"
  by (simp add: update_matching_def update_by_id_def)

lemma target_no_id: "delta ''id'' = None \<Longrightarrow> target r delta = Integer (row_id r)"
  by (simp add: target_def pick_def bound_def)

lemma iloc_in_snapshot: "in_snapshot df i \<Longrightarrow> iloc df i = Inr (snapshot_row df i)"
  by (simp add: in_snapshot_def iloc_def snapshot_row_def Let_def)

lemma edited_dicts_ok:
  "list_all (\<lambda>(i, delta). in_snapshot df i) edits \<Longrightarrow>
   edited_dicts df edits =
     Inr (map (\<lambda>(i, delta). to_dict df (snapshot_row df i) ++ delta) edits)"
  by (induction edits) (auto simp: iloc_in_snapshot)

lemma update_loop_ok:
  assumes "list_all2 (\<lambda>d vs. bind_params d UPDATE_PARAMS = Inr vs) ds vss"
    and "view conn = Some t"
  shows "update_loop conn ds =
     Inr (conn\<lparr>view := Some (foldl (\<lambda>t vs. sql_update vs t) t vss),
               executed := executed conn @ map Update vss\<rparr>)"
  using assms
proof (induction ds vss arbitrary: conn t rule: list_all2_induct)
  case Nil
  then show ?case by simp
next
  case (Cons d ds vs vss)
  let ?c = "conn\<lparr>view := Some (sql_update vs t), executed := executed conn @ [Update vs]\<rparr>"
  from Cons.hyps(1) Cons.prems have e: "execute_update conn d = Inr ?c"
    by (simp add: execute_update_def)
  have "view ?c = Some (sql_update vs t)" by simp
  from Cons.IH [OF this] e show ?case by simp
qed

lemma executemany_update_ok:
  assumes "list_all2 (\<lambda>d vs. bind_params d UPDATE_PARAMS = Inr vs) ds vss"
    and "view conn = Some t"
  shows "executemany_update conn ds =
     Inr (conn\<lparr>view := Some (foldl (\<lambda>t vs. sql_update vs t) t vss),
               in_transaction := True,
               executed := executed conn @ map Update vss\<rparr>)"
proof -
  have p: "prepare conn = Inr (begin_transaction conn)"
    using assms(2) by (simp add: prepare_def)
  have v: "view (begin_transaction conn) = Some t"
    using assms(2) by (simp add: begin_transaction_def)
  show ?thesis
    by (simp add: executemany_update_def p update_loop_ok [OF assms(1) v])
       (simp add: begin_transaction_def)
qed

lemma update_edited_ok:
  assumes cols: "columns df = SCORE_CARD_COLUMNS"
    and v: "view conn = Some t"
    and ne: "edited_rows changes \<noteq> []"
    and ok: "list_all (\<lambda>(i, delta). in_snapshot df i \<and>
               list_all bindable (merged_values (snapshot_row df i) delta))
             (edited_rows score_card)"
  shows "update_edited conn df changes score_card =
     Inr (conn\<lparr>view := Some (foldl (\<lambda>t (i, delta).
                                 update_matching (target (snapshot_row df i) delta)
                                   (stored_row (overlay (snapshot_row df i) delta)) t)
                                t (edited_rows score_card)),
               in_transaction := True,
               executed := executed conn @
                 map (\<lambda>(i, delta). Update (map bound (merged_values (snapshot_row df i) delta)))
                   (edited_rows score_card)\<rparr>)"
proof -
  let ?es = "edited_rows score_card"
  let ?ds = "map (\<lambda>(i, delta). to_dict df (snapshot_row df i) ++ delta) ?es"
  let ?vss = "map (\<lambda>(i, delta). map bound (merged_values (snapshot_row df i) delta)) ?es"
  from ok have "list_all (\<lambda>(i, delta). in_snapshot df i) ?es"
    by (auto simp: list_all_iff)
  then have e: "edited_dicts df ?es = Inr ?ds" by (rule edited_dicts_ok)
  have b: "list_all2 (\<lambda>d vs. bind_params d UPDATE_PARAMS = Inr vs) ?ds ?vss"
    using ok by (auto simp: list_all2_map1 list_all2_map2 list_all2_same list_all_iff
        intro!: bind_params_merged [OF cols])
  have f: "foldl (\<lambda>t vs. sql_update vs t) t ?vss =
        foldl (\<lambda>t (i, delta). update_matching (target (snapshot_row df i) delta)
                                   (stored_row (overlay (snapshot_row df i) delta)) t) t ?es"
    by (simp add: foldl_map split_def sql_update_merged)
  have m: "map Update ?vss =
      map (\<lambda>(i, delta). Update (map bound (merged_values (snapshot_row df i) delta))) ?es"
    by (simp add: split_def)
  have "update_edited conn df changes score_card = executemany_update conn ?ds"
    using ne by (simp add: update_edited_def e)
  also have "\<dots> =
     Inr (conn\<lparr>view := Some (foldl (\<lambda>t vs. sql_update vs t) t ?vss),
               in_transaction := True,
               executed := executed conn @ map Update ?vss\<rparr>)"
    by (rule executemany_update_ok [OF b v])
  finally show ?thesis by (simp only: f m)
qed

lemma bindable_pick:
  "bindable (pick delta k Null) \<Longrightarrow> bindable v \<Longrightarrow> bindable (pick delta k v)"
  by (auto simp: pick_def split: option.splits)

lemma bindable_merged:
  assumes "typed_row r" "typed_partial delta" "bindable (pick delta ''id'' Null)"
  shows "list_all bindable (merged_values r delta)"
proof -
  from assms(1) have "bindable (Integer (row_id r))"
    by (simp add: typed_row_def bindable_def)
  moreover from assms(1) have "bindable (contestant_name r)"
    "bindable (contestant_id r)" "bindable (total_tops r)" "bindable (total_penalty r)"
    "bindable (description r)"
    by (simp_all add: typed_row_def text_value_bindable int_value_bindable)
  ultimately have r: "bindable (Integer (row_id r))" "bindable (contestant_name r)"
    "bindable (contestant_id r)" "bindable (total_tops r)" "bindable (total_penalty r)"
    "bindable (description r)"
    by simp_all
  from assms(2) have d: "bindable (pick delta ''contestant_name'' Null)"
    "bindable (pick delta ''contestant_id'' Null)" "bindable (pick delta ''total_tops'' Null)"
    "bindable (pick delta ''total_penalty'' Null)" "bindable (pick delta ''description'' Null)"
    by (simp_all add: typed_partial_def text_value_bindable int_value_bindable)
  from r d assms(3) show ?thesis
    by (simp add: merged_values_def overlay_def bindable_pick)
qed

lemma update_data_only_edits:
  assumes "added_rows changes = []" "deleted_rows changes = []"
    and "update_edited conn df changes score_card = Inr c"
  shows "update_data conn df changes score_card = Inr (commit c)"
  using assms by (simp add: update_data_def update_added_def update_deleted_def)

lemma filter_map_other_id:
  "k \<noteq> k' \<Longrightarrow>
   filter (\<lambda>r. row_id r = k') (map (\<lambda>r. if row_id r = k then set_fields src r else r) rs) =
   filter (\<lambda>r. row_id r = k') rs"
  by (induction rs) (auto simp: set_fields_def)

lemma update_by_id_other_rows:
  "k \<noteq> k' \<Longrightarrow>
   filter (\<lambda>r. row_id r = k') (tbl_rows (update_by_id k src t)) =
   filter (\<lambda>r. row_id r = k') (tbl_rows t)"
  by (simp add: update_by_id_def filter_map_other_id)

lemma bound_plain: "plain_value v \<Longrightarrow> bound v = v"
  by (cases v) (simp_all add: bound_def)

lemma stored_plain: "plain_value v \<Longrightarrow> stored v = v"
  by (cases v) (simp_all add: stored_def bound_def)

lemma stored_row_plain: "plain_row r \<Longrightarrow> stored_row r = r"
  by (simp add: plain_row_def stored_row_def bound_plain stored_plain)

lemma edits_typed_bindable:
  assumes "\<forall>(i, delta) \<in> set es.
             in_snapshot df i \<and> typed_row (snapshot_row df i) \<and> typed_partial delta \<and>
             bindable (pick delta ''id'' Null)"
  shows "list_all (\<lambda>(i, delta). in_snapshot df i \<and>
               list_all bindable (merged_values (snapshot_row df i) delta)) es"
proof -
  from assms have "\<forall>x \<in> set es. case x of (i, delta) \<Rightarrow> in_snapshot df i \<and>
               list_all bindable (merged_values (snapshot_row df i) delta)"
    using bindable_merged by fastforce
  then show ?thesis by (simp only: Ball_set)
qed

text \<open>
  Claim C3. \<open>update_data\<close> reads the edits from the session state \<open>score_card\<close>, which
  the page passes as the batch. When the positions of the edits index rows of the snapshot,
  their partial records carry no \<open>id\<close> (the input contract of the edits) and the values
  have the types of their columns, \<open>update_data\<close> executes, in the order of the batch,
  one update per edit: its \<open>WHERE\<close> clause compares with the id of the snapshot row at
  the edit's position, and the five fields it binds and stores are those of the snapshot
  row with the partial record overlaid (the partial record's value where it has the field,
  the snapshot's value where it has not). What is stored is the overlaid row as a table
  holds it: the \<open>NaN\<close> by which the frame shows a missing number is stored as \<open>NULL\<close>
  and a float of the frame as the integer of its value; an overlaid row without \<open>NaN\<close>
  and floats is stored as it is. When the batch has nothing but edits, this is all
  \<open>update_data\<close> does before it commits.
\<close>

theorem update_data_edits_overlay:
  assumes cols: "columns df = SCORE_CARD_COLUMNS"
    and v: "view conn = Some t"
    and ne: "edited_rows changes \<noteq> []"
    and ok: "\<forall>(i, delta) \<in> set (edited_rows score_card).
               in_snapshot df i \<and> delta ''id'' = None \<and>
               typed_row (snapshot_row df i) \<and> typed_partial delta"
  shows "(\<exists>c. update_edited conn df changes score_card = Inr c \<and>
     executed c = executed conn @
       map (\<lambda>(i, delta).
              Update [bound (contestant_name (overlay (snapshot_row df i) delta)),
                      bound (contestant_id (overlay (snapshot_row df i) delta)),
                      bound (total_tops (overlay (snapshot_row df i) delta)),
                      bound (total_penalty (overlay (snapshot_row df i) delta)),
                      bound (description (overlay (snapshot_row df i) delta)),
                      Integer (row_id (snapshot_row df i))])
         (edited_rows score_card) \<and>
     view c = Some (foldl (\<lambda>t (i, delta).
                       update_by_id (row_id (snapshot_row df i))
                         (stored_row (overlay (snapshot_row df i) delta)) t)
                     t (edited_rows score_card))) \<and>
    (added_rows changes = [] \<and> deleted_rows changes = [] \<longrightarrow>
     (\<exists>c. update_data conn df changes score_card = Inr c \<and>
     executed c = executed conn @
       map (\<lambda>(i, delta).
              Update [bound (contestant_name (overlay (snapshot_row df i) delta)),
                      bound (contestant_id (overlay (snapshot_row df i) delta)),
                      bound (total_tops (overlay (snapshot_row df i) delta)),
                      bound (total_penalty (overlay (snapshot_row df i) delta)),
                      bound (description (overlay (snapshot_row df i) delta)),
                      Integer (row_id (snapshot_row df i))])
         (edited_rows score_card) \<and>
     view c = Some (foldl (\<lambda>t (i, delta).
                       update_by_id (row_id (snapshot_row df i))
                         (stored_row (overlay (snapshot_row df i) delta)) t)
                     t (edited_rows score_card)) \<and>
     durable c = view c)) \<and>
    (\<forall>(i, delta) \<in> set (edited_rows score_card).
       plain_row (overlay (snapshot_row df i) delta) \<longrightarrow>
       stored_row (overlay (snapshot_row df i) delta) = overlay (snapshot_row df i) delta)"
proof -
  let ?es = "edited_rows score_card"
  from ok have "\<forall>(i, delta) \<in> set ?es.
             in_snapshot df i \<and> typed_row (snapshot_row df i) \<and> typed_partial delta \<and>
             bindable (pick delta ''id'' Null)"
    by (auto simp: pick_def bindable_def)
  then have ok': "list_all (\<lambda>(i, delta). in_snapshot df i \<and>
               list_all bindable (merged_values (snapshot_row df i) delta)) ?es"
    by (rule edits_typed_bindable)
  have f: "foldl (\<lambda>t (i, delta). update_matching (target (snapshot_row df i) delta)
                                   (stored_row (overlay (snapshot_row df i) delta)) t) t ?es =
        foldl (\<lambda>t (i, delta). update_by_id (row_id (snapshot_row df i))
                         (stored_row (overlay (snapshot_row df i) delta)) t) t ?es"
    using ok by (intro foldl_cong) (auto simp: target_no_id update_matching_integer)
  have m: "map (\<lambda>(i, delta). Update (map bound (merged_values (snapshot_row df i) delta))) ?es =
       map (\<lambda>(i, delta).
              Update [bound (contestant_name (overlay (snapshot_row df i) delta)),
                      bound (contestant_id (overlay (snapshot_row df i) delta)),
                      bound (total_tops (overlay (snapshot_row df i) delta)),
                      bound (total_penalty (overlay (snapshot_row df i) delta)),
                      bound (description (overlay (snapshot_row df i) delta)),
                      Integer (row_id (snapshot_row df i))]) ?es"
    using ok by (intro map_cong) (auto simp: merged_values_def pick_def bound_def)
  note e = update_edited_ok [OF cols v ne ok']
  show ?thesis
  proof (intro conjI impI)
    show "\<exists>c. update_edited conn df changes score_card = Inr c \<and>
     executed c = executed conn @
       map (\<lambda>(i, delta).
              Update [bound (contestant_name (overlay (snapshot_row df i) delta)),
                      bound (contestant_id (overlay (snapshot_row df i) delta)),
                      bound (total_tops (overlay (snapshot_row df i) delta)),
                      bound (total_penalty (overlay (snapshot_row df i) delta)),
                      bound (description (overlay (snapshot_row df i) delta)),
                      Integer (row_id (snapshot_row df i))])
         (edited_rows score_card) \<and>
     view c = Some (foldl (\<lambda>t (i, delta).
                       update_by_id (row_id (snapshot_row df i))
                         (stored_row (overlay (snapshot_row df i) delta)) t)
                     t (edited_rows score_card))"
      by (simp add: e f m)
  next
    assume "added_rows changes = [] \<and> deleted_rows changes = []"
    then have only: "added_rows changes = []" "deleted_rows changes = []" by simp_all
    show "\<exists>c. update_data conn df changes score_card = Inr c \<and>
     executed c = executed conn @
       map (\<lambda>(i, delta).
              Update [bound (contestant_name (overlay (snapshot_row df i) delta)),
                      bound (contestant_id (overlay (snapshot_row df i) delta)),
                      bound (total_tops (overlay (snapshot_row df i) delta)),
                      bound (total_penalty (overlay (snapshot_row df i) delta)),
                      bound (description (overlay (snapshot_row df i) delta)),
                      Integer (row_id (snapshot_row df i))])
         (edited_rows score_card) \<and>
     view c = Some (foldl (\<lambda>t (i, delta).
                       update_by_id (row_id (snapshot_row df i))
                         (stored_row (overlay (snapshot_row df i) delta)) t)
                     t (edited_rows score_card)) \<and>
     durable c = view c"
      by (simp add: update_data_only_edits [OF only e] commit_after_statements f m)
  next
    show "\<forall>(i, delta) \<in> set (edited_rows score_card).
       plain_row (overlay (snapshot_row df i) delta) \<longrightarrow>
       stored_row (overlay (snapshot_row df i) delta) = overlay (snapshot_row df i) delta"
      by (auto simp: stored_row_plain)
  qed
qed

theorem update_data_edits_overlay_witness:
  "columns sample_df = SCORE_CARD_COLUMNS \<and> view sample_conn = Some sample_table \<and>
   edited_rows tops_edit_changes = [(2, [''total_tops'' \<mapsto> Integer 4])] \<and>
   added_rows tops_edit_changes = [] \<and> deleted_rows tops_edit_changes = [] \<and>
   in_snapshot sample_df 2 \<and> typed_row (snapshot_row sample_df 2) \<and>
   typed_partial [''total_tops'' \<mapsto> Integer 4] \<and>
   plain_row (overlay (snapshot_row sample_df 2) [''total_tops'' \<mapsto> Integer 4]) \<and>
   stored_row (overlay (snapshot_row sample_df 2) [''total_tops'' \<mapsto> Integer 4]) =
     \<lparr>row_id = 5, contestant_name = Text ''Azrai'', contestant_id = Integer 2501,
      total_tops = Integer 4, total_penalty = Integer 1, description = Text []\<rparr> \<and>
   (\<exists>c. update_data sample_conn sample_df tops_edit_changes tops_edit_changes = Inr c \<and>
      executed c =
        [Update [Text ''Azrai'', Integer 2501, Integer 4, Integer 1, Text [], Integer 5]] \<and>
      view c =
        Some \<lparr>tbl_rows =
          [\<lparr>row_id = 1, contestant_name = Text ''Fais'', contestant_id = Integer 2502,
            total_tops = Integer 0, total_penalty = Integer 0, description = Text []\<rparr>,
           \<lparr>row_id = 2, contestant_name = Text ''Avish'', contestant_id = Integer 2503,
            total_tops = Integer 2, total_penalty = Integer 0, description = Null\<rparr>,
           \<lparr>row_id = 5, contestant_name = Text ''Azrai'', contestant_id = Integer 2501,
            total_tops = Integer 4, total_penalty = Integer 1, description = Text []\<rparr>],
          tbl_seq = 7\<rparr> \<and>
      durable c = view c)"
proof -
  have h: "columns sample_df = SCORE_CARD_COLUMNS" "view sample_conn = Some sample_table"
    "edited_rows tops_edit_changes \<noteq> []"
    "added_rows tops_edit_changes = []" "deleted_rows tops_edit_changes = []"
    by (simp_all add: sample_defs tops_edit_changes_def)
  have s: "in_snapshot sample_df 2" "typed_row (snapshot_row sample_df 2)"
    "typed_partial [''total_tops'' \<mapsto> Integer 4]"
    "plain_row (overlay (snapshot_row sample_df 2) [''total_tops'' \<mapsto> Integer 4])"
    by (simp_all add: sample_defs in_snapshot_def snapshot_row_def typed_row_def
        typed_partial_def pick_def int64_def plain_row_def overlay_def)
  have e: "edited_rows tops_edit_changes = [(2, [''total_tops'' \<mapsto> Integer 4])]"
    by (simp add: tops_edit_changes_def)
  have ok: "\<forall>(i, delta) \<in> set (edited_rows tops_edit_changes).
               in_snapshot sample_df i \<and> delta ''id'' = None \<and>
               typed_row (snapshot_row sample_df i) \<and> typed_partial delta"
    using s by (simp add: e)
  from update_data_edits_overlay [OF h(1-3) ok] h s e
  show ?thesis
    by (simp add: sample_defs overlay_def pick_def snapshot_row_def update_by_id_def
        set_fields_def stored_row_def stored_def bound_def)
qed

section \<open>An edit that carries an id\<close>








section \<open>Inserting the added rows\<close>

lemma defaultdict_None_pick: "defaultdict_None d k = Some (pick d k Null)"
  by (simp add: defaultdict_None_def pick_def)

lemma typed_partial_bindable:
  assumes "typed_partial d"
  shows "bindable (pick d ''contestant_name'' Null)" "bindable (pick d ''contestant_id'' Null)"
    "bindable (pick d ''total_tops'' Null)" "bindable (pick d ''total_penalty'' Null)"
    "bindable (pick d ''description'' Null)"
  using assms by (simp_all add: typed_partial_def text_value_bindable int_value_bindable)

lemma bind_params_added:
  assumes "typed_partial d" "numeric_id d"
  shows "bind_params (defaultdict_None d) INSERT_PARAMS = Inr (added_values d)"
proof -
  from assms(2) have "bindable (pick d ''id'' Null)" by (simp add: numeric_id_def)
  with typed_partial_bindable [OF assms(1)] show ?thesis
    by (simp add: INSERT_PARAMS_def added_values_def defaultdict_None_pick
        bind_value_bindable)
qed

lemma ids_below_next_id: "r \<in> set (tbl_rows t) \<Longrightarrow> row_id r < next_id t"
proof -
  assume r: "r \<in> set (tbl_rows t)"
  then have "row_id r \<le> Max (row_id ` set (tbl_rows t))" by simp
  moreover from r have "tbl_rows t \<noteq> []" by auto
  ultimately show ?thesis by (simp add: next_id_def)
qed

lemma new_rowid_ok: "next_id t \<le> MAX_ROWID \<Longrightarrow> new_rowid t = Inr (next_id t)"
  by (auto simp: new_rowid_def next_id_def)

lemma insort_key_append:
  "\<forall>r \<in> set rs. f r < f x \<Longrightarrow> insort_key f x rs = rs @ [x]"
  for f :: "'a \<Rightarrow> int"
  by (induction rs) auto

lemma store_row_added:
  "store_row k
     [bound (pick d ''contestant_name'' Null), bound (pick d ''contestant_id'' Null),
      bound (pick d ''total_tops'' Null), bound (pick d ''total_penalty'' Null),
      bound (pick d ''description'' Null)] t =
   \<lparr>tbl_rows = insort_key row_id (new_row k d) (tbl_rows t), tbl_seq = max (tbl_seq t) k\<rparr>"
  by (simp add: store_row_def new_row_def stored_def)

lemma sql_insert_one:
  assumes "can_insert t d"
  shows "sql_insert (added_values d) t = Inr (insert_one t d)"
proof (cases "given_id d")
  case Null
  with assms have "next_id t \<le> MAX_ROWID" by (simp add: can_insert_def)
  then have n: "new_rowid t = Inr (next_id t)" by (rule new_rowid_ok)
  from Null have a: "integer_affinity (bound (pick d ''id'' Null)) = Null"
    by (simp add: given_id_def stored_def)
  from Null have c: "chosen_id t d = next_id t" by (simp add: chosen_id_def)
  show ?thesis
    by (simp add: added_values_def a n store_row_added insert_one_def c)
next
  case (Integer j)
  with assms have "j \<notin> row_id ` set (tbl_rows t)" by (simp add: can_insert_def)
  moreover from Integer have a: "integer_affinity (bound (pick d ''id'' Null)) = Integer j"
    by (simp add: given_id_def stored_def)
  moreover from Integer have c: "chosen_id t d = j" by (simp add: chosen_id_def)
  ultimately show ?thesis
    by (simp add: added_values_def store_row_added insert_one_def)
next
  case (Text s)
  with assms show ?thesis by (simp add: can_insert_def)
next
  case (Float i)
  with assms show ?thesis by (simp add: can_insert_def)
next
  case NaN
  with assms show ?thesis by (simp add: can_insert_def)
qed

lemma execute_insert_one:
  assumes "view conn = Some t" "typed_partial d" "numeric_id d" "can_insert t d"
  shows "execute_insert conn (defaultdict_None d) =
     Inr (conn\<lparr>view := Some (insert_one t d),
               executed := executed conn @ [Insert (added_values d)]\<rparr>)"
  by (simp add: execute_insert_def bind_params_added [OF assms(2,3)] assms(1)
      sql_insert_one [OF assms(4)])

lemma insert_loop_ok:
  assumes "list_all (\<lambda>d. typed_partial d \<and> numeric_id d) ds"
    and "view conn = Some t"
    and "insertable t ds"
  shows "insert_loop conn (map defaultdict_None ds) =
     Inr (conn\<lparr>view := Some (foldl insert_one t ds),
               executed := executed conn @ map (\<lambda>d. Insert (added_values d)) ds\<rparr>)"
  using assms
proof (induction ds arbitrary: conn t)
  case Nil
  then show ?case by simp
next
  case (Cons d ds)
  let ?c = "conn\<lparr>view := Some (insert_one t d),
               executed := executed conn @ [Insert (added_values d)]\<rparr>"
  from Cons.prems have d: "typed_partial d" "numeric_id d" "can_insert t d" by simp_all
  have e: "execute_insert conn (defaultdict_None d) = Inr ?c"
    by (rule execute_insert_one [OF Cons.prems(2) d])
  have r: "list_all (\<lambda>d. typed_partial d \<and> numeric_id d) ds"
    using Cons.prems(1) by simp
  have v: "view ?c = Some (insert_one t d)" by simp
  have c: "insertable (insert_one t d) ds" using Cons.prems(3) by simp
  from Cons.IH [OF r v c] e show ?case by simp
qed

lemma executemany_insert_ok:
  assumes "list_all (\<lambda>d. typed_partial d \<and> numeric_id d) ds"
    and "view conn = Some t"
    and "insertable t ds"
  shows "executemany_insert conn (map defaultdict_None ds) =
     Inr (conn\<lparr>view := Some (foldl insert_one t ds),
               in_transaction := True,
               executed := executed conn @ map (\<lambda>d. Insert (added_values d)) ds\<rparr>)"
proof -
  have p: "prepare conn = Inr (begin_transaction conn)"
    using assms(2) by (simp add: prepare_def)
  have v: "view (begin_transaction conn) = Some t"
    using assms(2) by (simp add: begin_transaction_def)
  show ?thesis
    by (simp add: executemany_insert_def p insert_loop_ok [OF assms(1) v assms(3)])
       (simp add: begin_transaction_def)
qed

lemma given_id_absent: "d ''id'' = None \<Longrightarrow> given_id d = Null"
  by (simp add: given_id_def pick_def stored_def bound_def)

lemma chosen_id_absent: "d ''id'' = None \<Longrightarrow> chosen_id t d = next_id t"
  by (simp add: chosen_id_def given_id_absent)

lemma can_insert_absent: "d ''id'' = None \<Longrightarrow> can_insert t d = (next_id t \<le> MAX_ROWID)"
  by (simp add: can_insert_def given_id_absent)

lemma insert_one_absent:
  assumes "d ''id'' = None"
  shows "insert_one t d = auto_insert t d"
proof -
  let ?x = "new_row (next_id t) d"
  have "\<forall>r \<in> set (tbl_rows t). row_id r < row_id ?x"
    by (simp add: new_row_def ids_below_next_id)
  then have i: "insort_key row_id ?x (tbl_rows t) = tbl_rows t @ [?x]"
    by (rule insort_key_append)
  have m: "max (tbl_seq t) (next_id t) = next_id t" by (simp add: next_id_def)
  show ?thesis
    by (simp add: insert_one_def chosen_id_absent [where d = d, OF assms] i m auto_insert_def)
qed

lemma next_id_auto_insert: "next_id (auto_insert t d) = next_id t + 1"
proof -
  let ?A = "row_id ` set (tbl_rows (auto_insert t d))"
  have "Max ?A = next_id t"
  proof (rule Max_eqI)
    show "finite ?A" by simp
    show "next_id t \<in> ?A" by (simp add: auto_insert_def new_row_def)
    show "\<And>y. y \<in> ?A \<Longrightarrow> y \<le> next_id t"
      using ids_below_next_id [of _ t] by (fastforce simp: auto_insert_def new_row_def)
  qed
  moreover have "tbl_rows (auto_insert t d) \<noteq> []" "tbl_seq (auto_insert t d) = next_id t"
    by (simp_all add: auto_insert_def)
  ultimately show ?thesis by (simp add: next_id_def [of "auto_insert t d"])
qed

lemma foldl_insert_one_absent:
  "list_all (\<lambda>d. d ''id'' = None) ds \<Longrightarrow> foldl insert_one t ds = foldl auto_insert t ds"
  by (induction ds arbitrary: t) (simp_all add: insert_one_absent)

lemma insertable_absent:
  "list_all (\<lambda>d. d ''id'' = None) ds \<Longrightarrow> next_id t + int (length ds) - 1 \<le> MAX_ROWID \<Longrightarrow>
   insertable t ds"
proof (induction ds arbitrary: t)
  case Nil
  show ?case by simp
next
  case (Cons d ds)
  from Cons.prems have d: "d ''id'' = None" and r: "list_all (\<lambda>d. d ''id'' = None) ds"
    by simp_all
  from Cons.prems(2) have n: "next_id t \<le> MAX_ROWID" by simp
  from Cons.prems(2) have c: "next_id (auto_insert t d) + int (length ds) - 1 \<le> MAX_ROWID"
    by (simp add: next_id_auto_insert)
  from Cons.IH [OF r c] n show ?case
    by (simp add: can_insert_absent [where d = d, OF d] insert_one_absent [where d = d, OF d])
qed

lemma foldl_auto_insert:
  "ds \<noteq> [] \<Longrightarrow>
   foldl auto_insert t ds =
     \<lparr>tbl_rows = tbl_rows t @ appended (next_id t) ds,
      tbl_seq = next_id t + int (length ds) - 1\<rparr>"
proof (induction ds arbitrary: t)
  case Nil
  then show ?case by simp
next
  case (Cons d ds)
  show ?case
  proof (cases "ds = []")
    case True
    then show ?thesis by (simp add: auto_insert_def)
  next
    case False
    from Cons.IH [OF False, of "auto_insert t d"] show ?thesis
      by (simp add: next_id_auto_insert) (simp add: auto_insert_def)
  qed
qed

lemma appended_upto:
  "appended k ds = map2 new_row [k .. k + int (length ds) - 1] ds"
proof (induction ds arbitrary: k)
  case Nil
  show ?case by simp
next
  case (Cons d ds)
  have "[k .. k + int (length (d # ds)) - 1] = k # [k + 1 .. k + 1 + int (length ds) - 1]"
    by (simp add: upto_rec1)
  then show ?case by (simp add: Cons.IH)
qed

lemma update_data_only_added:
  assumes "edited_rows changes = []" "deleted_rows changes = []"
    and "update_added conn changes = Inr c"
  shows "update_data conn df changes score_card = Inr (commit c)"
  using assms by (simp add: update_data_def update_edited_def update_deleted_def)

text \<open>
  Claim C4. Every added row is passed to the insert as a mapping that answers \<open>None\<close>
  for each field the partial record lacks, the id included, so all six placeholders are
  bound and none is omitted. For the added rows of a batch, with values of their columns'
  types and ids that are no texts, \<open>update_data\<close> executes one insert per added row in
  the order of the batch, provided each row can be inserted when its turn comes (its id is
  absent or \<open>NULL\<close> and the next id is within 64 bits, or it is an integer no row has).
  The stored row has the partial record's values as SQLite stores them, \<open>NULL\<close> in the
  other fields, and the id it asked for or, when it asked for none, the next id, which is
  larger than every id of the table and than every id ever assigned. When no added row
  carries an id the new rows follow the rows of the table under consecutive ids. When the
  batch has nothing but added rows, this is all \<open>update_data\<close> does before it commits.
\<close>

theorem update_data_inserts:
  assumes v: "view conn = Some t"
    and ne: "added_rows changes \<noteq> []"
    and ok: "\<forall>d \<in> set (added_rows changes). typed_partial d \<and> numeric_id d"
    and can: "insertable t (added_rows changes)"
  shows "(\<forall>d \<in> set (added_rows changes).
           bind_params (defaultdict_None d) INSERT_PARAMS =
             Inr [bound (pick d ''id'' Null), bound (pick d ''contestant_name'' Null),
                  bound (pick d ''contestant_id'' Null), bound (pick d ''total_tops'' Null),
                  bound (pick d ''total_penalty'' Null),
                  bound (pick d ''description'' Null)]) \<and>
    (\<exists>c. update_added conn changes = Inr c \<and>
       executed c = executed conn @
         map (\<lambda>d. Insert [bound (pick d ''id'' Null), bound (pick d ''contestant_name'' Null),
                          bound (pick d ''contestant_id'' Null),
                          bound (pick d ''total_tops'' Null),
                          bound (pick d ''total_penalty'' Null),
                          bound (pick d ''description'' Null)])
           (added_rows changes) \<and>
       view c = Some (foldl insert_one t (added_rows changes))) \<and>
    (edited_rows changes = [] \<and> deleted_rows changes = [] \<longrightarrow>
     (\<exists>c. update_data conn df changes score_card = Inr c \<and>
       executed c = executed conn @
         map (\<lambda>d. Insert [bound (pick d ''id'' Null), bound (pick d ''contestant_name'' Null),
                          bound (pick d ''contestant_id'' Null),
                          bound (pick d ''total_tops'' Null),
                          bound (pick d ''total_penalty'' Null),
                          bound (pick d ''description'' Null)])
           (added_rows changes) \<and>
       view c = Some (foldl insert_one t (added_rows changes)) \<and>
       durable c = view c)) \<and>
    ((\<forall>d \<in> set (added_rows changes). d ''id'' = None) \<longrightarrow>
       foldl insert_one t (added_rows changes) =
         \<lparr>tbl_rows = tbl_rows t @
            map2 new_row [next_id t .. next_id t + int (length (added_rows changes)) - 1]
              (added_rows changes),
          tbl_seq = next_id t + int (length (added_rows changes)) - 1\<rparr>) \<and>
    (\<forall>r \<in> set (tbl_rows t). row_id r < next_id t) \<and>
    (d' ''id'' = None \<longrightarrow>
       chosen_id t' d' = next_id t' \<and> can_insert t' d' = (next_id t' \<le> MAX_ROWID) \<and>
       insert_one t' d' =
         \<lparr>tbl_rows = tbl_rows t' @ [new_row (next_id t') d'], tbl_seq = next_id t'\<rparr>) \<and>
    ((\<forall>d \<in> set ds. d ''id'' = None) \<and> next_id t' + int (length ds) - 1 \<le> MAX_ROWID \<longrightarrow>
       insertable t' ds)"
proof -
  let ?ds = "added_rows changes"
  from ok have ok': "list_all (\<lambda>d. typed_partial d \<and> numeric_id d) ?ds"
    by (simp only: Ball_set)
  have a: "\<forall>d \<in> set ?ds.
           bind_params (defaultdict_None d) INSERT_PARAMS =
             Inr [bound (pick d ''id'' Null), bound (pick d ''contestant_name'' Null),
                  bound (pick d ''contestant_id'' Null), bound (pick d ''total_tops'' Null),
                  bound (pick d ''total_penalty'' Null),
                  bound (pick d ''description'' Null)]"
    using ok bind_params_added by (simp add: added_values_def)
  have m: "map (\<lambda>d. Insert (added_values d)) ?ds =
         map (\<lambda>d. Insert [bound (pick d ''id'' Null), bound (pick d ''contestant_name'' Null),
                          bound (pick d ''contestant_id'' Null),
                          bound (pick d ''total_tops'' Null),
                          bound (pick d ''total_penalty'' Null),
                          bound (pick d ''description'' Null)]) ?ds"
    by (simp add: added_values_def)
  note e = executemany_insert_ok [OF ok' v can]
  have u: "update_added conn changes =
     Inr (conn\<lparr>view := Some (foldl insert_one t ?ds),
               in_transaction := True,
               executed := executed conn @ map (\<lambda>d. Insert (added_values d)) ?ds\<rparr>)"
    using ne by (simp add: update_added_def e)
  have s: "\<exists>c. update_added conn changes = Inr c \<and>
       executed c = executed conn @
         map (\<lambda>d. Insert [bound (pick d ''id'' Null), bound (pick d ''contestant_name'' Null),
                          bound (pick d ''contestant_id'' Null),
                          bound (pick d ''total_tops'' Null),
                          bound (pick d ''total_penalty'' Null),
                          bound (pick d ''description'' Null)])
           (added_rows changes) \<and>
       view c = Some (foldl insert_one t (added_rows changes))"
    by (simp add: u m)
  have b: "edited_rows changes = [] \<and> deleted_rows changes = [] \<longrightarrow>
     (\<exists>c. update_data conn df changes score_card = Inr c \<and>
       executed c = executed conn @
         map (\<lambda>d. Insert [bound (pick d ''id'' Null), bound (pick d ''contestant_name'' Null),
                          bound (pick d ''contestant_id'' Null),
                          bound (pick d ''total_tops'' Null),
                          bound (pick d ''total_penalty'' Null),
                          bound (pick d ''description'' Null)])
           (added_rows changes) \<and>
       view c = Some (foldl insert_one t (added_rows changes)) \<and>
       durable c = view c)"
  proof
    assume "edited_rows changes = [] \<and> deleted_rows changes = []"
    then have only: "edited_rows changes = []" "deleted_rows changes = []" by simp_all
    show "\<exists>c. update_data conn df changes score_card = Inr c \<and>
       executed c = executed conn @
         map (\<lambda>d. Insert [bound (pick d ''id'' Null), bound (pick d ''contestant_name'' Null),
                          bound (pick d ''contestant_id'' Null),
                          bound (pick d ''total_tops'' Null),
                          bound (pick d ''total_penalty'' Null),
                          bound (pick d ''description'' Null)])
           (added_rows changes) \<and>
       view c = Some (foldl insert_one t (added_rows changes)) \<and>
       durable c = view c"
      by (simp add: update_data_only_added [OF only u] commit_after_statements m)
  qed
  have c: "(\<forall>d \<in> set ?ds. d ''id'' = None) \<longrightarrow>
       foldl insert_one t ?ds =
         \<lparr>tbl_rows = tbl_rows t @
            map2 new_row [next_id t .. next_id t + int (length ?ds) - 1] ?ds,
          tbl_seq = next_id t + int (length ?ds) - 1\<rparr>"
  proof
    assume "\<forall>d \<in> set ?ds. d ''id'' = None"
    then have "list_all (\<lambda>d. d ''id'' = None) ?ds" by (simp only: Ball_set)
    then have "foldl insert_one t ?ds = foldl auto_insert t ?ds"
      by (rule foldl_insert_one_absent)
    then show "foldl insert_one t ?ds =
         \<lparr>tbl_rows = tbl_rows t @
            map2 new_row [next_id t .. next_id t + int (length ?ds) - 1] ?ds,
          tbl_seq = next_id t + int (length ?ds) - 1\<rparr>"
      by (simp add: foldl_auto_insert [OF ne] appended_upto)
  qed
  have d: "d' ''id'' = None \<longrightarrow>
       chosen_id t' d' = next_id t' \<and> can_insert t' d' = (next_id t' \<le> MAX_ROWID) \<and>
       insert_one t' d' =
         \<lparr>tbl_rows = tbl_rows t' @ [new_row (next_id t') d'], tbl_seq = next_id t'\<rparr>"
    by (simp add: chosen_id_absent can_insert_absent insert_one_absent auto_insert_def)
  have g: "(\<forall>d \<in> set ds. d ''id'' = None) \<and> next_id t' + int (length ds) - 1 \<le> MAX_ROWID \<longrightarrow>
       insertable t' ds"
    using insertable_absent [of ds t'] by (simp add: Ball_set)
  from a s b c d g ids_below_next_id show ?thesis by blast
qed

theorem update_data_inserts_witness:
  "view sample_conn = Some sample_table \<and>
   edited_rows insert_changes = [] \<and> deleted_rows insert_changes = [] \<and>
   added_rows insert_changes = [[''contestant_name'' \<mapsto> Text ''New''], Map.empty] \<and>
   typed_partial [''contestant_name'' \<mapsto> Text ''New''] \<and>
   numeric_id [''contestant_name'' \<mapsto> Text ''New''] \<and>
   typed_partial Map.empty \<and> numeric_id Map.empty \<and>
   insertable sample_table (added_rows insert_changes) \<and>
   next_id sample_table = 8 \<and> 8 + int (length (added_rows insert_changes)) - 1 \<le> MAX_ROWID \<and>
   bind_params (defaultdict_None [''contestant_name'' \<mapsto> Text ''New'']) INSERT_PARAMS =
     Inr [Null, Text ''New'', Null, Null, Null, Null] \<and>
   (\<exists>c. update_data sample_conn sample_df insert_changes insert_changes = Inr c \<and>
      executed c =
        [Insert [Null, Text ''New'', Null, Null, Null, Null],
         Insert [Null, Null, Null, Null, Null, Null]] \<and>
      view c =
        Some \<lparr>tbl_rows = sample_rows @
          [\<lparr>row_id = 8, contestant_name = Text ''New'', contestant_id = Null,
            total_tops = Null, total_penalty = Null, description = Null\<rparr>,
           \<lparr>row_id = 9, contestant_name = Null, contestant_id = Null,
            total_tops = Null, total_penalty = Null, description = Null\<rparr>],
          tbl_seq = 9\<rparr> \<and>
      durable c = view c) \<and>
   list_all (\<lambda>r. row_id r < 8) sample_rows \<and>
   chosen_id sample_table Map.empty = 8 \<and>
   added_rows id_insert_changes =
     [[''id'' \<mapsto> Integer 3, ''total_tops'' \<mapsto> Float 1], Map.empty] \<and>
   insertable sample_table (added_rows id_insert_changes) \<and>
   (\<exists>c. update_added sample_conn id_insert_changes = Inr c \<and>
      executed c =
        [Insert [Integer 3, Null, Null, Float 1, Null, Null],
         Insert [Null, Null, Null, Null, Null, Null]] \<and>
      view c =
        Some \<lparr>tbl_rows =
          [\<lparr>row_id = 1, contestant_name = Text ''Fais'', contestant_id = Integer 2502,
            total_tops = Integer 0, total_penalty = Integer 0, description = Text []\<rparr>,
           \<lparr>row_id = 2, contestant_name = Text ''Avish'', contestant_id = Integer 2503,
            total_tops = Integer 2, total_penalty = Integer 0, description = Null\<rparr>,
           \<lparr>row_id = 3, contestant_name = Null, contestant_id = Null,
            total_tops = Integer 1, total_penalty = Null, description = Null\<rparr>,
           \<lparr>row_id = 5, contestant_name = Text ''Azrai'', contestant_id = Integer 2501,
            total_tops = Integer 3, total_penalty = Integer 1, description = Text []\<rparr>,
           \<lparr>row_id = 8, contestant_name = Null, contestant_id = Null,
            total_tops = Null, total_penalty = Null, description = Null\<rparr>],
          tbl_seq = 8\<rparr>)"
proof -
  have h: "view sample_conn = Some sample_table"
    "edited_rows insert_changes = []" "deleted_rows insert_changes = []"
    "added_rows insert_changes \<noteq> []" "added_rows id_insert_changes \<noteq> []"
    by (simp_all add: sample_defs insert_changes_def id_insert_changes_def)
  have a: "added_rows insert_changes = [[''contestant_name'' \<mapsto> Text ''New''], Map.empty]"
    by (simp add: insert_changes_def)
  have a': "added_rows id_insert_changes =
     [[''id'' \<mapsto> Integer 3, ''total_tops'' \<mapsto> Float 1], Map.empty]"
    by (simp add: id_insert_changes_def)
  have s: "typed_partial [''contestant_name'' \<mapsto> Text ''New'']"
    "numeric_id [''contestant_name'' \<mapsto> Text ''New'']"
    "typed_partial Map.empty" "numeric_id Map.empty"
    "typed_partial [''id'' \<mapsto> Integer 3, ''total_tops'' \<mapsto> Float 1]"
    "numeric_id [''id'' \<mapsto> Integer 3, ''total_tops'' \<mapsto> Float 1]"
    by (simp_all add: typed_partial_def numeric_id_def pick_def bindable_def int64_def)
  have n: "next_id sample_table = 8"
    by (simp add: next_id_def sample_table_def sample_rows_def)
  have r: "tbl_rows sample_table = sample_rows" by (simp add: sample_table_def)
  have ok: "\<forall>d \<in> set (added_rows insert_changes). typed_partial d \<and> numeric_id d"
    using s by (simp add: a)
  have ok': "\<forall>d \<in> set (added_rows id_insert_changes). typed_partial d \<and> numeric_id d"
    using s by (simp add: a')
  have cap: "next_id sample_table + int (length (added_rows insert_changes)) - 1 \<le> MAX_ROWID"
    by (simp add: n a MAX_ROWID_def)
  have i: "insertable sample_table (added_rows insert_changes)"
    by (rule insertable_absent) (simp_all add: a n MAX_ROWID_def)
  have g: "given_id [''id'' \<mapsto> Integer 3, ''total_tops'' \<mapsto> Float 1] = Integer 3"
    "given_id Map.empty = Null"
    by (simp_all add: given_id_def pick_def stored_def bound_def)
  have t1: "insert_one sample_table [''id'' \<mapsto> Integer 3, ''total_tops'' \<mapsto> Float 1] =
      \<lparr>tbl_rows =
          [\<lparr>row_id = 1, contestant_name = Text ''Fais'', contestant_id = Integer 2502,
            total_tops = Integer 0, total_penalty = Integer 0, description = Text []\<rparr>,
           \<lparr>row_id = 2, contestant_name = Text ''Avish'', contestant_id = Integer 2503,
            total_tops = Integer 2, total_penalty = Integer 0, description = Null\<rparr>,
           \<lparr>row_id = 3, contestant_name = Null, contestant_id = Null,
            total_tops = Integer 1, total_penalty = Null, description = Null\<rparr>,
           \<lparr>row_id = 5, contestant_name = Text ''Azrai'', contestant_id = Integer 2501,
            total_tops = Integer 3, total_penalty = Integer 1, description = Text []\<rparr>],
       tbl_seq = 7\<rparr>"
    by (simp add: insert_one_def chosen_id_def g new_row_def pick_def stored_def bound_def
        sample_table_def sample_rows_def)
  have n1: "next_id (insert_one sample_table
        [''id'' \<mapsto> Integer 3, ''total_tops'' \<mapsto> Float 1]) = 8"
    by (simp add: t1 next_id_def)
  have t2: "foldl insert_one sample_table (added_rows id_insert_changes) =
      \<lparr>tbl_rows =
          [\<lparr>row_id = 1, contestant_name = Text ''Fais'', contestant_id = Integer 2502,
            total_tops = Integer 0, total_penalty = Integer 0, description = Text []\<rparr>,
           \<lparr>row_id = 2, contestant_name = Text ''Avish'', contestant_id = Integer 2503,
            total_tops = Integer 2, total_penalty = Integer 0, description = Null\<rparr>,
           \<lparr>row_id = 3, contestant_name = Null, contestant_id = Null,
            total_tops = Integer 1, total_penalty = Null, description = Null\<rparr>,
           \<lparr>row_id = 5, contestant_name = Text ''Azrai'', contestant_id = Integer 2501,
            total_tops = Integer 3, total_penalty = Integer 1, description = Text []\<rparr>,
           \<lparr>row_id = 8, contestant_name = Null, contestant_id = Null,
            total_tops = Null, total_penalty = Null, description = Null\<rparr>],
       tbl_seq = 8\<rparr>"
    by (simp add: a' insert_one_def [of "insert_one sample_table _"] chosen_id_def g n1
        new_row_def pick_def stored_def bound_def)
       (simp add: t1)
  have i': "insertable sample_table (added_rows id_insert_changes)"
    by (simp add: a' can_insert_def g n1 MAX_ROWID_def)
       (simp add: sample_table_def sample_rows_def)
  note u = update_data_inserts [where conn = sample_conn and t = sample_table and
      changes = insert_changes and df = sample_df and score_card = insert_changes and
      d' = Map.empty and t' = sample_table and ds = "added_rows insert_changes",
      OF h(1,4) ok i]
  note u' = update_data_inserts [where conn = sample_conn and t = sample_table and
      changes = id_insert_changes and df = sample_df and score_card = id_insert_changes and
      d' = Map.empty and t' = sample_table and ds = "added_rows insert_changes",
      OF h(1,5) ok' i']
  from u have b: "bind_params (defaultdict_None [''contestant_name'' \<mapsto> Text ''New''])
      INSERT_PARAMS = Inr [Null, Text ''New'', Null, Null, Null, Null]"
    by (simp add: a pick_def bound_def)
  have e: "\<forall>d \<in> set (added_rows insert_changes). d ''id'' = None" by (simp add: a)
  from u e have f: "foldl insert_one sample_table (added_rows insert_changes) =
         \<lparr>tbl_rows = tbl_rows sample_table @
            map2 new_row
              [next_id sample_table ..
               next_id sample_table + int (length (added_rows insert_changes)) - 1]
              (added_rows insert_changes),
          tbl_seq = next_id sample_table + int (length (added_rows insert_changes)) - 1\<rparr>"
    by blast
  have f': "foldl insert_one sample_table (added_rows insert_changes) =
        \<lparr>tbl_rows = sample_rows @
          [\<lparr>row_id = 8, contestant_name = Text ''New'', contestant_id = Null,
            total_tops = Null, total_penalty = Null, description = Null\<rparr>,
           \<lparr>row_id = 9, contestant_name = Null, contestant_id = Null,
            total_tops = Null, total_penalty = Null, description = Null\<rparr>],
          tbl_seq = 9\<rparr>"
    by (simp add: f n r) (simp add: a upto.simps new_row_def pick_def stored_def bound_def)
  from u h(2,3) obtain c where c: "update_data sample_conn sample_df insert_changes
      insert_changes = Inr c"
    "executed c = executed sample_conn @
         map (\<lambda>d. Insert [bound (pick d ''id'' Null), bound (pick d ''contestant_name'' Null),
                          bound (pick d ''contestant_id'' Null),
                          bound (pick d ''total_tops'' Null),
                          bound (pick d ''total_penalty'' Null),
                          bound (pick d ''description'' Null)])
           (added_rows insert_changes)"
    "view c = Some (foldl insert_one sample_table (added_rows insert_changes))"
    "durable c = view c"
    by blast
  have x: "executed c =
        [Insert [Null, Text ''New'', Null, Null, Null, Null],
         Insert [Null, Null, Null, Null, Null, Null]]"
    by (simp add: c(2) a pick_def bound_def sample_conn_def)
  from u have l: "list_all (\<lambda>r. row_id r < 8) sample_rows"
    by (simp add: n r list_all_iff)
  from u have k: "chosen_id sample_table Map.empty = 8" by (simp add: n)
  from u' obtain c' where c': "update_added sample_conn id_insert_changes = Inr c'"
    "executed c' = executed sample_conn @
         map (\<lambda>d. Insert [bound (pick d ''id'' Null), bound (pick d ''contestant_name'' Null),
                          bound (pick d ''contestant_id'' Null),
                          bound (pick d ''total_tops'' Null),
                          bound (pick d ''total_penalty'' Null),
                          bound (pick d ''description'' Null)])
           (added_rows id_insert_changes)"
    "view c' = Some (foldl insert_one sample_table (added_rows id_insert_changes))"
    by blast
  have x': "executed c' =
        [Insert [Integer 3, Null, Null, Float 1, Null, Null],
         Insert [Null, Null, Null, Null, Null, Null]]"
    by (simp add: c'(2) a' pick_def bound_def sample_conn_def)
  from h(1-3) a a' s(1-4) i i' n cap b c(1,4) x c(3) f' l k c'(1) x' c'(3) t2
  show ?thesis by (simp add: n a)
qed

section \<open>Writing a batch and reading the table back\<close>

lemma foldl_update_by_id:
  "foldl (\<lambda>t (i, delta). update_by_id (row_id (snapshot_row df i))
            (stored_row (overlay (snapshot_row df i) delta)) t) t edits =
     t\<lparr>tbl_rows := map (\<lambda>r. foldl (edit_step (data df)) r edits) (tbl_rows t)\<rparr>"
proof (induction edits arbitrary: t)
  case Nil
  show ?case by simp
next
  case (Cons x edits)
  obtain i delta where x: "x = (i, delta)" by (cases x)
  let ?t = "update_by_id (row_id (snapshot_row df i))
      (stored_row (overlay (snapshot_row df i) delta)) t"
  have s: "tbl_rows ?t = map (\<lambda>r. edit_step (data df) r x) (tbl_rows t)"
    by (simp add: update_by_id_def edit_step_def snapshot_row_def x)
  have "?t\<lparr>tbl_rows := map (\<lambda>r. foldl (edit_step (data df)) r edits) (tbl_rows ?t)\<rparr> =
        t\<lparr>tbl_rows := map (\<lambda>r. foldl (edit_step (data df)) r (x # edits)) (tbl_rows t)\<rparr>"
    by (simp add: s comp_def) (simp add: update_by_id_def)
  with Cons.IH [of ?t] show ?case by (simp add: x)
qed

lemma row_id_set_fields [simp]: "row_id (set_fields src r) = row_id r"
  by (simp add: set_fields_def)

lemma row_id_overlay [simp]: "row_id (overlay r delta) = row_id r"
  by (simp add: overlay_def)

lemma row_id_stored_row [simp]: "row_id (stored_row r) = row_id r"
  by (simp add: stored_row_def)

lemma set_fields_same_id: "row_id r = row_id src \<Longrightarrow> set_fields src r = src"
  by (simp add: set_fields_def)

lemma row_id_edit_step [simp]: "row_id (edit_step rows r x) = row_id r"
  by (simp add: edit_step_def)

lemma row_id_foldl_edit_step [simp]: "row_id (foldl (edit_step rows) r edits) = row_id r"
  by (induction edits arbitrary: r) simp_all

lemma foldl_edit_step_hit:
  assumes "distinct (map row_id rows)" "j < length rows"
    and "distinct (map fst edits)"
    and "list_all (\<lambda>(i, delta). 0 \<le> i \<and> i < int (length rows)) edits"
    and "row_id r = row_id (rows ! j)"
  shows "foldl (edit_step rows) r edits =
     (case map_of edits (int j) of
        None \<Rightarrow> r
      | Some delta \<Rightarrow> stored_row (overlay (rows ! j) delta))"
  using assms(3-5)
proof (induction edits arbitrary: r)
  case Nil
  show ?case by simp
next
  case (Cons x edits)
  obtain i delta where x: "x = (i, delta)" by (cases x)
  from Cons.prems x have i: "0 \<le> i" "nat i < length rows" by auto
  from Cons.prems have d: "distinct (map fst edits)"
    and l: "list_all (\<lambda>(i, delta). 0 \<le> i \<and> i < int (length rows)) edits"
    by simp_all
  show ?case
  proof (cases "i = int j")
    case True
    with Cons.prems(1) x have "int j \<notin> fst ` set edits" by auto
    then have n: "map_of edits (int j) = None" by (simp add: map_of_eq_None_iff)
    have e: "edit_step rows r x = stored_row (overlay (rows ! j) delta)"
      using True Cons.prems(3) by (simp add: edit_step_def x set_fields_same_id)
    have "row_id (edit_step rows r x) = row_id (rows ! j)"
      using Cons.prems(3) by simp
    from Cons.IH [OF d l this] n e True show ?thesis by (simp add: x)
  next
    case False
    with i have "nat i \<noteq> j" by auto
    with assms(1,2) i(2) have "row_id (rows ! nat i) \<noteq> row_id (rows ! j)"
      using nth_eq_iff_index_eq [of "map row_id rows" "nat i" j] by simp
    then have e: "edit_step rows r x = r"
      using Cons.prems(3) by (simp add: edit_step_def x)
    from Cons.IH [OF d l Cons.prems(3)] e False show ?thesis by (simp add: x)
  qed
qed

lemma map_foldl_edit_step:
  assumes "map row_id (data df) = map row_id (tbl_rows t)"
    and "distinct (map row_id (tbl_rows t))"
    and "distinct (map fst (edited_rows changes))"
    and "list_all (\<lambda>(i, delta). in_snapshot df i) (edited_rows changes)"
  shows "map (\<lambda>r. foldl (edit_step (data df)) r (edited_rows changes)) (tbl_rows t) =
         map (edited_row t df changes) [0..<length (tbl_rows t)]"
proof -
  let ?rows = "data df"
  from assms(1) have len: "length ?rows = length (tbl_rows t)" by (rule map_eq_imp_length_eq)
  from assms(1,2) have dist: "distinct (map row_id ?rows)" by simp
  have same: "\<And>j. j < length (tbl_rows t) \<Longrightarrow> row_id (tbl_rows t ! j) = row_id (?rows ! j)"
    using assms(1) len by (metis nth_map)
  have l: "list_all (\<lambda>(i, delta). 0 \<le> i \<and> i < int (length ?rows)) (edited_rows changes)"
    using assms(4) by (simp add: in_snapshot_def)
  have "\<And>j. j < length (tbl_rows t) \<Longrightarrow>
     foldl (edit_step ?rows) (tbl_rows t ! j) (edited_rows changes) = edited_row t df changes j"
  proof -
    fix j
    assume j: "j < length (tbl_rows t)"
    then have j': "j < length ?rows" by (simp add: len)
    from foldl_edit_step_hit [OF dist j' assms(3) l same [OF j]]
    show "foldl (edit_step ?rows) (tbl_rows t ! j) (edited_rows changes) =
        edited_row t df changes j"
      by (simp add: edited_row_def)
  qed
  then have "map (\<lambda>j. foldl (edit_step ?rows) (tbl_rows t ! j) (edited_rows changes))
               [0..<length (tbl_rows t)] =
             map (edited_row t df changes) [0..<length (tbl_rows t)]"
    by simp
  moreover have "map (\<lambda>j. foldl (edit_step ?rows) (tbl_rows t ! j) (edited_rows changes))
               [0..<length (tbl_rows t)] =
             map (\<lambda>r. foldl (edit_step ?rows) r (edited_rows changes)) (tbl_rows t)"
    by (rule nth_equalityI) simp_all
  ultimately show ?thesis by simp
qed

lemma row_id_edited_row:
  assumes "map row_id (data df) = map row_id (tbl_rows t)" "j < length (tbl_rows t)"
  shows "row_id (edited_row t df changes j) = row_id (tbl_rows t ! j)"
proof -
  from assms(1) have "length (data df) = length (tbl_rows t)" by (rule map_eq_imp_length_eq)
  with assms have "row_id (data df ! j) = row_id (tbl_rows t ! j)" by (metis nth_map)
  then show ?thesis by (simp add: edited_row_def split: option.splits)
qed

lemma filter_deleted_ids:
  assumes same: "map row_id (data df) = map row_id (tbl_rows t)"
    and "distinct (map row_id (tbl_rows t))"
    and "list_all (in_snapshot df) is"
  shows "filter (\<lambda>r. row_id r \<notin> (\<lambda>i. row_id (snapshot_row df i)) ` set is)
           (map (edited_row t df changes) [0..<length (tbl_rows t)]) =
         map (edited_row t df changes)
           (filter (\<lambda>j. int j \<notin> set is) [0..<length (tbl_rows t)])"
proof -
  let ?rows = "data df"
  let ?D = "(\<lambda>i. row_id (snapshot_row df i)) ` set is"
  from same have len: "length ?rows = length (tbl_rows t)" by (rule map_eq_imp_length_eq)
  from same assms(2) have dist: "distinct (map row_id ?rows)" by simp
  have id: "\<And>j. j < length (tbl_rows t) \<Longrightarrow>
      row_id (edited_row t df changes j) = row_id (?rows ! j)"
    using row_id_edited_row [OF same] same len by (metis nth_map)
  have "\<And>j. j < length ?rows \<Longrightarrow> (row_id (?rows ! j) \<in> ?D) = (int j \<in> set is)"
  proof
    fix j
    assume j: "j < length ?rows" and "row_id (?rows ! j) \<in> ?D"
    then obtain i where i: "i \<in> set is" "row_id (?rows ! j) = row_id (?rows ! nat i)"
      by (auto simp: snapshot_row_def)
    with assms(3) have r: "0 \<le> i" "nat i < length ?rows"
      by (auto simp: list_all_iff in_snapshot_def)
    with dist j i(2) have "j = nat i"
      using nth_eq_iff_index_eq [of "map row_id ?rows" j "nat i"] by simp
    with r i(1) show "int j \<in> set is" by simp
  next
    fix j
    assume "j < length ?rows" and "int j \<in> set is"
    then have "row_id (snapshot_row df (int j)) \<in> ?D" by blast
    then show "row_id (?rows ! j) \<in> ?D" by (simp add: snapshot_row_def)
  qed
  then have "filter ((\<lambda>r. row_id r \<notin> ?D) \<circ> edited_row t df changes) [0..<length (tbl_rows t)] =
             filter (\<lambda>j. int j \<notin> set is) [0..<length (tbl_rows t)]"
    by (intro filter_cong) (simp_all add: id len)
  then show ?thesis by (simp add: filter_map)
qed

lemma filter_appended:
  assumes "\<forall>k \<in> D. k < n"
  shows "filter (\<lambda>r. row_id r \<notin> D) (appended n ds) = appended n ds"
  using assms
proof (induction ds arbitrary: n)
  case Nil
  show ?case by simp
next
  case (Cons d ds)
  from Cons.prems have "n \<notin> D" "\<forall>k \<in> D. k < n + 1" by auto
  with Cons.IH [of "n + 1"] show ?case by (simp add: new_row_def)
qed

lemma tbl_rows_foldl_auto_insert:
  "tbl_rows (foldl auto_insert t ds) = tbl_rows t @ appended (next_id t) ds"
  by (cases "ds = []") (simp_all add: foldl_auto_insert)

lemma tbl_seq_foldl_auto_insert:
  "tbl_seq (foldl auto_insert t ds) =
     (if ds = [] then tbl_seq t else next_id t + int (length ds) - 1)"
  by (cases "ds = []") (simp_all add: foldl_auto_insert)

lemma update_edited_phase:
  assumes cols: "columns df = SCORE_CARD_COLUMNS"
    and v: "view conn = Some t"
    and sc: "edited_rows score_card = edited_rows changes"
    and ok: "list_all (\<lambda>(i, delta). in_snapshot df i \<and> delta ''id'' = None \<and>
               typed_row (snapshot_row df i) \<and> typed_partial delta) (edited_rows changes)"
  shows "\<exists>c. update_edited conn df changes score_card = Inr c \<and>
     view c = Some (t\<lparr>tbl_rows :=
                map (\<lambda>r. foldl (edit_step (data df)) r (edited_rows changes)) (tbl_rows t)\<rparr>) \<and>
     durable c = durable conn \<and>
     in_transaction c = (in_transaction conn \<or> edited_rows changes \<noteq> []) \<and>
     (edited_rows changes = [] \<longrightarrow> c = conn)"
proof (cases "edited_rows changes = []")
  case True
  with v show ?thesis by (simp add: update_edited_def)
next
  case False
  from ok have "\<forall>(i, delta) \<in> set (edited_rows score_card).
             in_snapshot df i \<and> typed_row (snapshot_row df i) \<and> typed_partial delta \<and>
             bindable (pick delta ''id'' Null)"
    by (auto simp: sc list_all_iff pick_def bindable_def)
  then have ok': "list_all (\<lambda>(i, delta). in_snapshot df i \<and>
               list_all bindable (merged_values (snapshot_row df i) delta))
             (edited_rows score_card)"
    by (rule edits_typed_bindable)
  have f: "foldl (\<lambda>t (i, delta). update_matching (target (snapshot_row df i) delta)
                    (stored_row (overlay (snapshot_row df i) delta)) t) t
             (edited_rows changes) =
        foldl (\<lambda>t (i, delta). update_by_id (row_id (snapshot_row df i))
                    (stored_row (overlay (snapshot_row df i) delta)) t) t
             (edited_rows changes)"
    using ok
    by (intro foldl_cong) (auto simp: list_all_iff target_no_id update_matching_integer)
  from False show ?thesis
    by (simp add: update_edited_ok [OF cols v False ok'] sc f foldl_update_by_id)
qed

lemma update_added_phase:
  assumes v: "view conn = Some t"
    and ok: "list_all (\<lambda>d. d ''id'' = None \<and> typed_partial d) (added_rows changes)"
    and cap: "next_id t + int (length (added_rows changes)) - 1 \<le> MAX_ROWID"
  shows "\<exists>c. update_added conn changes = Inr c \<and>
     view c = Some (foldl auto_insert t (added_rows changes)) \<and>
     durable c = durable conn \<and>
     in_transaction c = (in_transaction conn \<or> added_rows changes \<noteq> []) \<and>
     (added_rows changes = [] \<longrightarrow> c = conn)"
proof (cases "added_rows changes = []")
  case True
  with v show ?thesis by (simp add: update_added_def)
next
  case False
  from ok have n: "list_all (\<lambda>d. d ''id'' = None) (added_rows changes)"
    by (auto simp: list_all_iff)
  from ok have ok': "list_all (\<lambda>d. typed_partial d \<and> numeric_id d) (added_rows changes)"
    by (auto simp: list_all_iff numeric_id_def pick_def bindable_def)
  note i = insertable_absent [OF n cap]
  from False show ?thesis
    by (simp add: update_added_def executemany_insert_ok [OF ok' v i]
        foldl_insert_one_absent [OF n])
qed

lemma update_deleted_phase:
  assumes cols: "columns df = SCORE_CARD_COLUMNS"
    and v: "view conn = Some t"
    and ok: "list_all (\<lambda>i. in_snapshot df i \<and> int64 (row_id (snapshot_row df i)))
               (deleted_rows changes)"
  shows "\<exists>c. update_deleted conn df changes = Inr c \<and>
     view c = Some (t\<lparr>tbl_rows :=
                filter (\<lambda>r. row_id r \<notin>
                          (\<lambda>i. row_id (snapshot_row df i)) ` set (deleted_rows changes))
                  (tbl_rows t)\<rparr>) \<and>
     durable c = durable conn \<and>
     in_transaction c = (in_transaction conn \<or> deleted_rows changes \<noteq> []) \<and>
     (deleted_rows changes = [] \<longrightarrow> c = conn)"
proof (cases "deleted_rows changes = []")
  case True
  with v show ?thesis by (simp add: update_deleted_def)
next
  case False
  have c: "''id'' \<in> set (columns df)" by (simp add: cols SCORE_CARD_COLUMNS_def)
  from False show ?thesis
    by (simp add: update_deleted_def executemany_delete_ok [OF c ok v])
qed

lemma next_id_same_ids:
  assumes "map row_id (tbl_rows t') = map row_id (tbl_rows t)" "tbl_seq t' = tbl_seq t"
  shows "next_id t' = next_id t"
proof -
  from assms(1) have "set (map row_id (tbl_rows t')) = set (map row_id (tbl_rows t))"
    by simp
  then have s: "row_id ` set (tbl_rows t') = row_id ` set (tbl_rows t)" by simp
  from assms(1) have e: "(tbl_rows t' = []) = (tbl_rows t = [])"
    by (metis map_is_Nil_conv)
  show ?thesis by (simp add: next_id_def s e assms(2))
qed

lemma row_id_from_records: "map row_id (from_records rows) = map row_id rows"
  by (simp add: from_records_def comp_def)

lemma int_value_cell: "int_value v \<Longrightarrow> int_value (cell f v)"
  by (cases v) (simp_all add: cell_def)

lemma text_column_cell:
  assumes "list_all text_value vs"
  shows "cell (float64 vs) v = v"
  using float64_text_column [OF assms] by (simp add: cell_False)

lemma typed_from_records:
  assumes "list_all typed_row rows" "j < length rows"
  shows "typed_row (from_records rows ! j)"
proof -
  from assms(1) have n: "list_all text_value (map contestant_name rows)"
    and d: "list_all text_value (map description rows)"
    by (simp_all add: list_all_iff typed_row_def)
  from assms have r: "typed_row (rows ! j)" by (simp add: list_all_length)
  from assms(2) have "from_records rows ! j =
      \<lparr>row_id = row_id (rows ! j),
       contestant_name = cell (float64 (map contestant_name rows)) (contestant_name (rows ! j)),
       contestant_id = cell (float64 (map contestant_id rows)) (contestant_id (rows ! j)),
       total_tops = cell (float64 (map total_tops rows)) (total_tops (rows ! j)),
       total_penalty = cell (float64 (map total_penalty rows)) (total_penalty (rows ! j)),
       description = cell (float64 (map description rows)) (description (rows ! j))\<rparr>"
    by (simp add: from_records_def)
  with r show ?thesis
    by (simp add: typed_row_def text_column_cell [OF n] text_column_cell [OF d]
        int_value_cell)
qed

lemma from_records_object: "object_columns rows \<Longrightarrow> from_records rows = rows"
  by (simp add: object_columns_def from_records_def cell_False map_idI)

text \<open>
  Claim C8, as the specification states it, fails on the code where it promises that the
  rows the batch does not target are read back unchanged. The table below has one row,
  whose \<open>total_tops\<close> is \<open>2^53 + 1\<close>; the snapshot read from it is the table itself.
  The batch adds the row of the specification's example, which has no \<open>total_tops\<close>.
  The column then holds an integer and a \<open>NULL\<close>, the Reader holds it as \<open>float64\<close>, and
  the row that was not targeted is read back with \<open>total_tops\<close> \<open>2^53\<close>.
\<close>

theorem round_trip_counterexample:
  "load_data exact_conn = Some exact_df \<and> data exact_df = tbl_rows exact_table \<and>
   view exact_conn = Some exact_table \<and> durable exact_conn = view exact_conn \<and>
   edited_rows new_name_changes = [] \<and> deleted_rows new_name_changes = [] \<and>
   added_rows new_name_changes = [[''contestant_name'' \<mapsto> Text ''New'']] \<and>
   total_tops (data exact_df ! 0) = Integer 9007199254740993 \<and>
   (\<exists>c. update_data exact_conn exact_df new_name_changes new_name_changes = Inr c \<and>
      durable c = view c \<and>
      view c =
        Some \<lparr>tbl_rows =
          [\<lparr>row_id = 1, contestant_name = Text ''Fais'', contestant_id = Integer 2502,
            total_tops = Integer 9007199254740993, total_penalty = Integer 0,
            description = Text []\<rparr>,
           \<lparr>row_id = 2, contestant_name = Text ''New'', contestant_id = Null,
            total_tops = Null, total_penalty = Null, description = Null\<rparr>],
          tbl_seq = 2\<rparr> \<and>
      load_data c =
        Some \<lparr>columns = SCORE_CARD_COLUMNS,
              data =
          [\<lparr>row_id = 1, contestant_name = Text ''Fais'', contestant_id = Float 2502,
            total_tops = Float 9007199254740992, total_penalty = Float 0,
            description = Text []\<rparr>,
           \<lparr>row_id = 2, contestant_name = Text ''New'', contestant_id = NaN,
            total_tops = NaN, total_penalty = NaN, description = Null\<rparr>]\<rparr>)"
proof -
  have l: "load_data exact_conn = Some exact_df"
    by (simp add: load_data_def load_data_of_def execute_select_def exact_conn_def
        exact_df_def exact_table_def from_records_def cell_def float64_def)
  have u: "update_data exact_conn exact_df new_name_changes new_name_changes =
     Inr \<lparr>durable =
            Some \<lparr>tbl_rows =
              [\<lparr>row_id = 1, contestant_name = Text ''Fais'', contestant_id = Integer 2502,
                total_tops = Integer 9007199254740993, total_penalty = Integer 0,
                description = Text []\<rparr>,
               \<lparr>row_id = 2, contestant_name = Text ''New'', contestant_id = Null,
                total_tops = Null, total_penalty = Null, description = Null\<rparr>],
              tbl_seq = 2\<rparr>,
          view =
            Some \<lparr>tbl_rows =
              [\<lparr>row_id = 1, contestant_name = Text ''Fais'', contestant_id = Integer 2502,
                total_tops = Integer 9007199254740993, total_penalty = Integer 0,
                description = Text []\<rparr>,
               \<lparr>row_id = 2, contestant_name = Text ''New'', contestant_id = Null,
                total_tops = Null, total_penalty = Null, description = Null\<rparr>],
              tbl_seq = 2\<rparr>,
          in_transaction = False,
          executed = [Insert [Null, Text ''New'', Null, Null, Null, Null]]\<rparr>"
    by (simp add: new_name_changes_def exact_conn_def exact_table_def exact_df_def run_defs)
  have z: "to_double 2502 = 2502" "to_double 0 = 0"
    by (simp_all add: to_double_exact)
  show ?thesis
    by (simp add: l u)
       (simp add: exact_conn_def exact_df_def exact_table_def new_name_changes_def
        load_data_def load_data_of_def execute_select_def from_records_def cell_def
        float64_def z to_double_rounds)
qed

text \<open>
  Claim C8, amended. Let the snapshot be what \<open>load_data\<close> reads from the table, a
  table with distinct ids and values of their columns' types, on a connection whose view
  is committed unless a transaction is open; let the batch be well formed over it
  (positions of the snapshot, no position edited twice, no id in a partial record, values
  of their columns' types) and the next ids within 64 bits. Then \<open>update_data\<close> returns,
  the result is committed, and the table holds exactly: its rows whose position was not
  deleted, in order, a row without edit unchanged and a row with an edit as the snapshot
  row with the partial record overlaid is stored, followed by one row per added row, in
  batch order, under fresh consecutive ids. No other row exists. Reading the table again
  yields these rows as \<open>load_data\<close> shows a table: the ids and the columns that pandas
  does not hold as \<open>float64\<close> as they are, and in particular all of them when no column
  of the new table is held as \<open>float64\<close>.
\<close>

theorem update_data_round_trip:
  assumes snap: "load_data conn = Some df"
    and clean: "in_transaction conn \<or> durable conn = view conn"
    and v: "view conn = Some t"
    and key: "distinct (map row_id (tbl_rows t))"
    and ty: "list_all typed_row (tbl_rows t)"
    and wf: "well_formed df changes"
    and sc: "edited_rows score_card = edited_rows changes"
    and cap: "next_id t + int (length (added_rows changes)) - 1 \<le> MAX_ROWID"
  shows "\<exists>c. update_data conn df changes score_card = Inr c \<and> durable c = view c \<and>
     (\<exists>t'. view c = Some t' \<and> tbl_rows t' = expected_rows t df changes) \<and>
     load_data c =
       Some \<lparr>columns = SCORE_CARD_COLUMNS, data = from_records (expected_rows t df changes)\<rparr> \<and>
     map row_id (from_records (expected_rows t df changes)) =
       map row_id (expected_rows t df changes) \<and>
     (object_columns (expected_rows t df changes) \<longrightarrow>
      load_data c = Some \<lparr>columns = SCORE_CARD_COLUMNS, data = expected_rows t df changes\<rparr>)"
proof -
  let ?n = "length (tbl_rows t)"
  let ?D = "(\<lambda>i. row_id (snapshot_row df i)) ` set (deleted_rows changes)"
  from snap v have cols: "columns df = SCORE_CARD_COLUMNS"
    and rows: "data df = from_records (tbl_rows t)"
    by (auto simp: load_data_def load_data_of_def execute_select_def)
  have same: "map row_id (data df) = map row_id (tbl_rows t)"
    by (simp add: rows row_id_from_records)
  then have len: "length (data df) = ?n" by (rule map_eq_imp_length_eq)
  have sr: "\<And>i. in_snapshot df i \<Longrightarrow> typed_row (snapshot_row df i)"
  proof -
    fix i
    assume "in_snapshot df i"
    then have "0 \<le> i" "i < int ?n" by (simp_all add: in_snapshot_def len)
    then have "nat i < ?n" by linarith
    then have "typed_row (from_records (tbl_rows t) ! nat i)"
      by (rule typed_from_records [OF ty])
    then show "typed_row (snapshot_row df i)" by (simp add: snapshot_row_def rows)
  qed
  \<comment> \<open>the edits\<close>
  from wf sr have oke: "list_all (\<lambda>(i, delta). in_snapshot df i \<and> delta ''id'' = None \<and>
               typed_row (snapshot_row df i) \<and> typed_partial delta) (edited_rows changes)"
    by (auto simp: well_formed_def list_all_iff)
  from wf have ine: "list_all (\<lambda>(i, delta). in_snapshot df i) (edited_rows changes)"
    and dist: "distinct (map fst (edited_rows changes))"
    by (auto simp: well_formed_def list_all_iff)
  let ?t1 = "t\<lparr>tbl_rows := map (edited_row t df changes) [0..<?n]\<rparr>"
  have m: "map (\<lambda>r. foldl (edit_step (data df)) r (edited_rows changes)) (tbl_rows t) =
           map (edited_row t df changes) [0..<?n]"
    by (rule map_foldl_edit_step [OF same key dist ine])
  from update_edited_phase [OF cols v sc oke] obtain c1 where
    c1: "update_edited conn df changes score_card = Inr c1" "view c1 = Some ?t1"
      "durable c1 = durable conn"
      "in_transaction c1 = (in_transaction conn \<or> edited_rows changes \<noteq> [])"
      "edited_rows changes = [] \<longrightarrow> c1 = conn"
    by (auto simp: m)
  \<comment> \<open>the added rows\<close>
  have "map row_id (tbl_rows ?t1) = map row_id (tbl_rows t)"
    by (rule nth_equalityI) (simp_all add: row_id_edited_row [OF same])
  then have n1: "next_id ?t1 = next_id t" by (rule next_id_same_ids) simp
  from wf have oka: "list_all (\<lambda>d. d ''id'' = None \<and> typed_partial d) (added_rows changes)"
    by (simp add: well_formed_def)
  from cap n1 have cap1: "next_id ?t1 + int (length (added_rows changes)) - 1 \<le> MAX_ROWID"
    by simp
  let ?t2 = "foldl auto_insert ?t1 (added_rows changes)"
  from update_added_phase [OF c1(2) oka cap1] obtain c2 where
    c2: "update_added c1 changes = Inr c2" "view c2 = Some ?t2"
      "durable c2 = durable c1"
      "in_transaction c2 = (in_transaction c1 \<or> added_rows changes \<noteq> [])"
      "added_rows changes = [] \<longrightarrow> c2 = c1"
    by auto
  have r2: "tbl_rows ?t2 =
      map (edited_row t df changes) [0..<?n] @ appended (next_id t) (added_rows changes)"
    by (simp add: tbl_rows_foldl_auto_insert n1)
  \<comment> \<open>the deletes\<close>
  from wf have ind: "list_all (in_snapshot df) (deleted_rows changes)"
    by (simp add: well_formed_def)
  have okd: "list_all (\<lambda>i. in_snapshot df i \<and> int64 (row_id (snapshot_row df i)))
               (deleted_rows changes)"
    using ind sr by (auto simp: list_all_iff typed_row_def)
  let ?t3 = "?t2\<lparr>tbl_rows := filter (\<lambda>r. row_id r \<notin> ?D) (tbl_rows ?t2)\<rparr>"
  from update_deleted_phase [OF cols c2(2) okd] obtain c3 where
    c3: "update_deleted c2 df changes = Inr c3" "view c3 = Some ?t3"
      "durable c3 = durable c2"
      "in_transaction c3 = (in_transaction c2 \<or> deleted_rows changes \<noteq> [])"
      "deleted_rows changes = [] \<longrightarrow> c3 = c2"
    by auto
  have below: "\<forall>k \<in> ?D. k < next_id t"
  proof
    fix k
    assume "k \<in> ?D"
    then obtain i where i: "i \<in> set (deleted_rows changes)" "k = row_id (snapshot_row df i)"
      by auto
    with ind have "0 \<le> i" "nat i < ?n"
      by (auto simp: list_all_iff in_snapshot_def len)
    with same len have "row_id (data df ! nat i) = row_id (tbl_rows t ! nat i)"
      by (metis nth_map)
    with i \<open>nat i < ?n\<close> have "k \<in> row_id ` set (tbl_rows t)"
      by (auto simp: snapshot_row_def)
    then show "k < next_id t" using ids_below_next_id by auto
  qed
  have "tbl_rows ?t3 =
      map (edited_row t df changes)
        (filter (\<lambda>j. int j \<notin> set (deleted_rows changes)) [0..<?n]) @
      appended (next_id t) (added_rows changes)"
    using filter_deleted_ids [OF same key ind, of changes]
    by (simp add: r2 filter_appended [OF below])
  then have r3: "tbl_rows ?t3 = expected_rows t df changes"
    by (simp add: expected_rows_def appended_upto)
  \<comment> \<open>the commit\<close>
  have u: "update_data conn df changes score_card = Inr (commit c3)"
    by (simp add: update_data_def c1(1) c2(1) c3(1))
  have d: "durable (commit c3) = view (commit c3)"
  proof (cases "in_transaction c3")
    case True
    then show ?thesis by (simp add: commit_def)
  next
    case False
    with c1(4,5) c2(4,5) c3(4,5) have "c3 = conn" by simp
    with False clean show ?thesis by (simp add: commit_def)
  qed
  have w: "view (commit c3) = Some ?t3" using c3(2) by (simp add: commit_def)
  then have l: "load_data (commit c3) =
      Some \<lparr>columns = SCORE_CARD_COLUMNS, data = from_records (expected_rows t df changes)\<rparr>"
    using r3 by (simp add: load_data_def load_data_of_def execute_select_def)
  from w r3 have x: "\<exists>t'. view (commit c3) = Some t' \<and> tbl_rows t' = expected_rows t df changes"
    by blast
  from u d x l show ?thesis
    by (auto simp: row_id_from_records from_records_object)
qed

theorem update_data_round_trip_witness:
  "load_data sample_conn = Some sample_df \<and>
   (in_transaction sample_conn \<or> durable sample_conn = view sample_conn) \<and>
   view sample_conn = Some sample_table \<and>
   distinct (map row_id (tbl_rows sample_table)) \<and>
   list_all typed_row (tbl_rows sample_table) \<and>
   well_formed sample_df mixed_changes \<and>
   next_id sample_table + int (length (added_rows mixed_changes)) - 1 \<le> MAX_ROWID \<and>
   (\<exists>c. update_data sample_conn sample_df mixed_changes mixed_changes = Inr c \<and>
      durable c = view c \<and>
      (\<exists>t'. view c = Some t' \<and>
         tbl_rows t' =
          [\<lparr>row_id = 2, contestant_name = Text ''Avish'', contestant_id = Integer 2503,
            total_tops = Integer 2, total_penalty = Integer 0, description = Null\<rparr>,
           \<lparr>row_id = 5, contestant_name = Text ''Azrai'', contestant_id = Integer 2501,
            total_tops = Integer 4, total_penalty = Integer 1, description = Text []\<rparr>,
           \<lparr>row_id = 8, contestant_name = Text ''New'', contestant_id = Null,
            total_tops = Null, total_penalty = Null, description = Null\<rparr>,
           \<lparr>row_id = 9, contestant_name = Null, contestant_id = Null,
            total_tops = Null, total_penalty = Null, description = Null\<rparr>]) \<and>
      load_data c =
        Some \<lparr>columns =
                [''id'', ''contestant_name'', ''contestant_id'', ''total_tops'',
                 ''total_penalty'', ''description''],
              data =
          [\<lparr>row_id = 2, contestant_name = Text ''Avish'', contestant_id = Float 2503,
            total_tops = Float 2, total_penalty = Float 0, description = Null\<rparr>,
           \<lparr>row_id = 5, contestant_name = Text ''Azrai'', contestant_id = Float 2501,
            total_tops = Float 4, total_penalty = Float 1, description = Text []\<rparr>,
           \<lparr>row_id = 8, contestant_name = Text ''New'', contestant_id = NaN,
            total_tops = NaN, total_penalty = NaN, description = Null\<rparr>,
           \<lparr>row_id = 9, contestant_name = Null, contestant_id = NaN,
            total_tops = NaN, total_penalty = NaN, description = Null\<rparr>]\<rparr>) \<and>
   \<not> object_columns (expected_rows sample_table sample_df mixed_changes) \<and>
   object_columns (expected_rows sample_table sample_df delete_changes) \<and>
   well_formed sample_df delete_changes \<and>
   (\<exists>c. update_data sample_conn sample_df delete_changes delete_changes = Inr c \<and>
      load_data c =
        Some \<lparr>columns = SCORE_CARD_COLUMNS,
              data =
          [\<lparr>row_id = 1, contestant_name = Text ''Fais'', contestant_id = Integer 2502,
            total_tops = Integer 0, total_penalty = Integer 0, description = Text []\<rparr>,
           \<lparr>row_id = 2, contestant_name = Text ''Avish'', contestant_id = Integer 2503,
            total_tops = Integer 2, total_penalty = Integer 0, description = Null\<rparr>]\<rparr>)"
proof -
  have h1: "load_data sample_conn = Some sample_df"
    by (simp add: load_data_def load_data_of_def execute_select_def sample_conn_def
        sample_table_def sample_df_def sample_rows_def from_records_def cell_def
        float64_def)
  have h2: "in_transaction sample_conn \<or> durable sample_conn = view sample_conn"
    and h3: "view sample_conn = Some sample_table"
    by (simp_all add: sample_conn_def)
  have h4: "distinct (map row_id (tbl_rows sample_table))"
    and h5: "list_all typed_row (tbl_rows sample_table)"
    by (simp_all add: sample_table_def sample_rows_def typed_row_def int64_def)
  have h6: "well_formed sample_df mixed_changes"
    "well_formed sample_df delete_changes"
    by (simp_all add: well_formed_def mixed_changes_def delete_changes_def sample_df_def
        sample_rows_def in_snapshot_def typed_partial_def pick_def int64_def)
  have n: "next_id sample_table = 8"
    by (simp add: next_id_def sample_table_def sample_rows_def)
  have r: "tbl_rows sample_table = sample_rows" by (simp add: sample_table_def)
  have h7: "next_id sample_table + int (length (added_rows mixed_changes)) - 1 \<le> MAX_ROWID"
    "next_id sample_table + int (length (added_rows delete_changes)) - 1 \<le> MAX_ROWID"
    by (simp_all add: n mixed_changes_def delete_changes_def MAX_ROWID_def)
  have e: "expected_rows sample_table sample_df mixed_changes =
          [\<lparr>row_id = 2, contestant_name = Text ''Avish'', contestant_id = Integer 2503,
            total_tops = Integer 2, total_penalty = Integer 0, description = Null\<rparr>,
           \<lparr>row_id = 5, contestant_name = Text ''Azrai'', contestant_id = Integer 2501,
            total_tops = Integer 4, total_penalty = Integer 1, description = Text []\<rparr>,
           \<lparr>row_id = 8, contestant_name = Text ''New'', contestant_id = Null,
            total_tops = Null, total_penalty = Null, description = Null\<rparr>,
           \<lparr>row_id = 9, contestant_name = Null, contestant_id = Null,
            total_tops = Null, total_penalty = Null, description = Null\<rparr>]"
    by (simp add: expected_rows_def n r edited_row_def mixed_changes_def sample_df_def
        sample_rows_def overlay_def pick_def new_row_def upto.simps upt_rec
        stored_row_def stored_def bound_def)
  have e': "expected_rows sample_table sample_df delete_changes =
          [\<lparr>row_id = 1, contestant_name = Text ''Fais'', contestant_id = Integer 2502,
            total_tops = Integer 0, total_penalty = Integer 0, description = Text []\<rparr>,
           \<lparr>row_id = 2, contestant_name = Text ''Avish'', contestant_id = Integer 2503,
            total_tops = Integer 2, total_penalty = Integer 0, description = Null\<rparr>]"
    by (simp add: expected_rows_def n r edited_row_def delete_changes_def sample_df_def
        sample_rows_def upto.simps upt_rec)
  have z: "to_double 2503 = 2503" "to_double 2501 = 2501" "to_double 0 = 0"
    "to_double 1 = 1" "to_double 2 = 2" "to_double 4 = 4"
    by (simp_all add: to_double_exact)
  have f: "from_records (expected_rows sample_table sample_df mixed_changes) =
          [\<lparr>row_id = 2, contestant_name = Text ''Avish'', contestant_id = Float 2503,
            total_tops = Float 2, total_penalty = Float 0, description = Null\<rparr>,
           \<lparr>row_id = 5, contestant_name = Text ''Azrai'', contestant_id = Float 2501,
            total_tops = Float 4, total_penalty = Float 1, description = Text []\<rparr>,
           \<lparr>row_id = 8, contestant_name = Text ''New'', contestant_id = NaN,
            total_tops = NaN, total_penalty = NaN, description = Null\<rparr>,
           \<lparr>row_id = 9, contestant_name = Null, contestant_id = NaN,
            total_tops = NaN, total_penalty = NaN, description = Null\<rparr>]"
    by (simp add: e from_records_def cell_def float64_def z)
  have o: "\<not> object_columns (expected_rows sample_table sample_df mixed_changes)"
    "object_columns (expected_rows sample_table sample_df delete_changes)"
    by (simp_all add: e e' object_columns_def float64_def)
  note a = update_data_round_trip [OF h1 h2 h3 h4 h5 h6(1) refl h7(1)]
  note b = update_data_round_trip [OF h1 h2 h3 h4 h5 h6(2) refl h7(2)]
  from a have 1: "\<exists>c. update_data sample_conn sample_df mixed_changes mixed_changes = Inr c \<and>
      durable c = view c \<and>
      (\<exists>t'. view c = Some t' \<and>
         tbl_rows t' = expected_rows sample_table sample_df mixed_changes) \<and>
      load_data c =
        Some \<lparr>columns = SCORE_CARD_COLUMNS,
              data = from_records (expected_rows sample_table sample_df mixed_changes)\<rparr>"
    by blast
  from b o(2) have 2: "\<exists>c. update_data sample_conn sample_df delete_changes delete_changes =
        Inr c \<and>
      load_data c =
        Some \<lparr>columns = SCORE_CARD_COLUMNS,
              data = expected_rows sample_table sample_df delete_changes\<rparr>"
    by blast
  note f' = f [unfolded e]
  from 1 2 h1 h2 h3 h4 h5 h6 h7(1) o show ?thesis
    by (simp add: e e' f' SCORE_CARD_COLUMNS_def)
qed

section \<open>Positions that the snapshot does not have\<close>

lemma bind_value_error: "bind_value v = Inl e \<Longrightarrow> e = OverflowError"
  by (cases v) (auto split: if_splits)

lemma iloc_error: "iloc df i = Inl e \<Longrightarrow> e = IndexError"
  by (auto simp: iloc_def Let_def split: if_splits)

lemma bind_params_error: "bind_params d ks = Inl e \<Longrightarrow> \<not> is_lookup_error e"
  by (induction ks) (auto split: option.splits sum.splits dest: bind_value_error)

lemma sqlite3_error_no_lookup: "\<not> is_lookup_error (sqlite3_error rc)"
  by (cases rc) simp_all

lemma execute_update_error: "execute_update conn d = Inl e \<Longrightarrow> \<not> is_lookup_error e"
  by (auto simp: execute_update_def split: sum.splits option.splits dest: bind_params_error)

lemma execute_insert_error: "execute_insert conn d = Inl (e, c) \<Longrightarrow> \<not> is_lookup_error e"
  by (auto simp: execute_insert_def sqlite3_error_no_lookup
      split: sum.splits option.splits dest: bind_params_error)

lemma execute_delete_error: "execute_delete conn d = Inl e \<Longrightarrow> \<not> is_lookup_error e"
  by (auto simp: execute_delete_def split: sum.splits option.splits
      dest: bind_params_error bind_value_error)

lemma prepare_error: "prepare conn = Inl e \<Longrightarrow> \<not> is_lookup_error e"
  by (auto simp: prepare_def split: option.splits)

lemma update_loop_error: "update_loop conn ds = Inl (e, c) \<Longrightarrow> \<not> is_lookup_error e"
  by (induction ds arbitrary: conn)
     (auto split: sum.splits dest: execute_update_error)

lemma insert_loop_error: "insert_loop conn ds = Inl (e, c) \<Longrightarrow> \<not> is_lookup_error e"
  by (induction ds arbitrary: conn)
     (auto split: sum.splits dest: execute_insert_error)

lemma delete_loop_error:
  assumes "''id'' \<in> set (columns df)" "list_all (in_snapshot df) is"
  shows "delete_loop conn df is = Inl (e, c) \<Longrightarrow> \<not> is_lookup_error e"
  using assms(2)
  by (induction "is" arbitrary: conn)
     (auto simp: loc_id_in_snapshot [OF _ assms(1)] split: sum.splits
      dest: execute_delete_error)

lemma edited_dicts_stale:
  assumes "\<exists>(i, delta) \<in> set edits. i < - int (length (data df)) \<or> int (length (data df)) \<le> i"
  shows "edited_dicts df edits = Inl IndexError"
  using assms
proof (induction edits)
  case Nil
  then show ?case by simp
next
  case (Cons x edits)
  obtain i delta where x: "x = (i, delta)" by (cases x)
  show ?case
  proof (cases "i < - int (length (data df)) \<or> int (length (data df)) \<le> i")
    case True
    then have "iloc df i = Inl IndexError" by (auto simp: iloc_def Let_def)
    then show ?thesis by (simp add: x)
  next
    case False
    with Cons.prems x
    have "\<exists>(i, delta) \<in> set edits. i < - int (length (data df)) \<or> int (length (data df)) \<le> i"
      by auto
    from Cons.IH [OF this] show ?thesis
      by (auto simp: x split: sum.splits dest: iloc_error)
  qed
qed

lemma delete_loop_stale:
  assumes "\<exists>i \<in> set is. \<not> in_snapshot df i"
    and "\<forall>i \<in> set is. in_snapshot df i \<longrightarrow> int64 (row_id (snapshot_row df i))"
    and "view conn = Some t"
  shows "\<exists>c. delete_loop conn df is = Inl (KeyError, c)"
  using assms
proof (induction "is" arbitrary: conn t)
  case Nil
  then show ?case by simp
next
  case (Cons i "is")
  show ?case
  proof (cases "loc_id df i")
    case (Inl e)
    then have "e = KeyError" by (simp add: loc_id_def split: if_splits)
    with Inl show ?thesis by simp
  next
    case (Inr k)
    then have i: "in_snapshot df i" "k = row_id (snapshot_row df i)"
      by (auto simp: loc_id_def in_snapshot_def snapshot_row_def split: if_splits)
    with Cons.prems(2) have "int64 k" by simp
    from execute_delete_ok [OF Cons.prems(3) this]
    obtain c' where c': "execute_delete conn [''id'' \<mapsto> Integer k] = Inr c'"
      "view c' = Some (delete_by_id k t)"
      by simp
    from Cons.prems(1) i(1) have "\<exists>i \<in> set is. \<not> in_snapshot df i" by auto
    moreover from Cons.prems(2)
    have "\<forall>i \<in> set is. in_snapshot df i \<longrightarrow> int64 (row_id (snapshot_row df i))" by simp
    ultimately obtain c where "delete_loop c' df is = Inl (KeyError, c)"
      using Cons.IH [OF _ _ c'(2)] by blast
    with Inr c'(1) show ?thesis by simp
  qed
qed

text \<open>
  Claim C2, as the specification states it, fails on the code: a delete at a position the
  snapshot does not have is looked up only when its turn comes, after the updates and the
  inserts, so an insert that fails first decides the exception (here a \<open>sqlite3\<close>
  \<open>IntegrityError\<close>); and an edit at the position \<open>-1\<close>, which is no position of the
  snapshot, is taken by \<open>df.iloc\<close> as the last row and raises nothing.
\<close>

theorem stale_position_counterexample:
  "\<not> in_snapshot sample_df 3 \<and> 3 \<in> set (deleted_rows clash_changes) \<and>
   isl (update_data sample_conn sample_df clash_changes clash_changes) \<and>
   fst (projl (update_data sample_conn sample_df clash_changes clash_changes))
     = IntegrityError \<and>
   \<not> is_lookup_error IntegrityError \<and> is_sqlite_error IntegrityError \<and>
   \<not> in_snapshot sample_df (- 1) \<and> - 1 \<in> fst ` set (edited_rows negative_changes) \<and>
   \<not> isl (update_data sample_conn sample_df negative_changes negative_changes)"
  by (simp add: sample_defs run_defs clash_changes_def negative_changes_def in_snapshot_def)

text \<open>
  Claim C2, amended. \<open>update_data\<close> reads the edits from the session state
  \<open>score_card\<close>, which the page passes as the batch. An edit at a position outside the
  index range of the snapshot (below \<open>-n\<close> or from \<open>n\<close> on, for a snapshot of \<open>n\<close>
  rows) makes \<open>update_data\<close> raise \<open>IndexError\<close> before any statement is executed. A
  delete at a position outside \<open>0 .. n - 1\<close> makes it raise \<open>KeyError\<close>, provided the
  updates and the inserts of the batch ran without error, the connection then has the
  table \<open>score_card\<close>, and the ids of the deleted snapshot rows are 64-bit; when the
  connection has no table, the deletes raise the \<open>sqlite3\<close> \<open>OperationalError\<close> instead,
  before any position is looked up. \<open>IndexError\<close> and \<open>KeyError\<close> are Python
  \<open>LookupError\<close>s, which no \<open>sqlite3\<close> error is, and nothing catches them. A batch all of
  whose positions are in \<open>0 .. n - 1\<close> never raises a \<open>LookupError\<close>.
\<close>

theorem update_data_stale_positions:
  "(edited_rows changes \<noteq> [] \<and>
    (\<exists>(i, delta) \<in> set (edited_rows score_card).
        i < - int (length (data df)) \<or> int (length (data df)) \<le> i) \<longrightarrow>
      update_data conn df changes score_card = Inl (IndexError, conn)) \<and>
   (update_edited conn df changes score_card = Inr c1 \<and> update_added c1 changes = Inr c2 \<and>
    view c2 = Some t \<and>
    (\<exists>i \<in> set (deleted_rows changes). \<not> in_snapshot df i) \<and>
    (\<forall>i \<in> set (deleted_rows changes).
        in_snapshot df i \<longrightarrow> int64 (row_id (snapshot_row df i))) \<longrightarrow>
      (\<exists>c. update_data conn df changes score_card = Inl (KeyError, c))) \<and>
   (update_edited conn df changes score_card = Inr c1 \<and> update_added c1 changes = Inr c2 \<and>
    view c2 = None \<and> deleted_rows changes \<noteq> [] \<longrightarrow>
      update_data conn df changes score_card = Inl (OperationalError, c2)) \<and>
   (''id'' \<in> set (columns df) \<and>
    list_all (\<lambda>(i, delta). in_snapshot df i) (edited_rows score_card) \<and>
    list_all (in_snapshot df) (deleted_rows changes) \<longrightarrow>
      (\<forall>e c. update_data conn df changes score_card = Inl (e, c) \<longrightarrow> \<not> is_lookup_error e)) \<and>
   (\<forall>e. is_lookup_error e \<longrightarrow> \<not> is_sqlite_error e) \<and>
   is_lookup_error IndexError \<and> is_lookup_error KeyError \<and>
   is_sqlite_error OperationalError"
proof (intro conjI impI allI)
  assume "edited_rows changes \<noteq> [] \<and>
    (\<exists>(i, delta) \<in> set (edited_rows score_card).
        i < - int (length (data df)) \<or> int (length (data df)) \<le> i)"
  then have "update_edited conn df changes score_card = Inl (IndexError, conn)"
    by (simp add: update_edited_def edited_dicts_stale)
  then show "update_data conn df changes score_card = Inl (IndexError, conn)"
    by (simp add: update_data_def)
next
  assume a: "update_edited conn df changes score_card = Inr c1 \<and>
    update_added c1 changes = Inr c2 \<and> view c2 = Some t \<and>
    (\<exists>i \<in> set (deleted_rows changes). \<not> in_snapshot df i) \<and>
    (\<forall>i \<in> set (deleted_rows changes).
        in_snapshot df i \<longrightarrow> int64 (row_id (snapshot_row df i)))"
  then have ne: "deleted_rows changes \<noteq> []" by auto
  from a have p: "prepare c2 = Inr (begin_transaction c2)"
    and v: "view (begin_transaction c2) = Some t"
    by (simp_all add: prepare_def begin_transaction_def)
  from a delete_loop_stale [OF _ _ v, of "deleted_rows changes" df]
  obtain c where "delete_loop (begin_transaction c2) df (deleted_rows changes)
      = Inl (KeyError, c)"
    by blast
  with a ne p show "\<exists>c. update_data conn df changes score_card = Inl (KeyError, c)"
    by (simp add: update_data_def update_deleted_def executemany_delete_def)
next
  assume "update_edited conn df changes score_card = Inr c1 \<and>
    update_added c1 changes = Inr c2 \<and> view c2 = None \<and> deleted_rows changes \<noteq> []"
  then show "update_data conn df changes score_card = Inl (OperationalError, c2)"
    by (simp add: update_data_def update_deleted_def executemany_delete_def prepare_def)
next
  fix e c
  assume a: "''id'' \<in> set (columns df) \<and>
    list_all (\<lambda>(i, delta). in_snapshot df i) (edited_rows score_card) \<and>
    list_all (in_snapshot df) (deleted_rows changes)"
    and f: "update_data conn df changes score_card = Inl (e, c)"
  from a have ed: "edited_dicts df (edited_rows score_card) =
      Inr (map (\<lambda>(i, delta). to_dict df (snapshot_row df i) ++ delta) (edited_rows score_card))"
    by (simp add: edited_dicts_ok)
  have e1: "\<And>conn. update_edited conn df changes score_card = Inl (e, c) \<Longrightarrow>
      \<not> is_lookup_error e"
    by (auto simp: update_edited_def ed executemany_update_def
        split: if_splits sum.splits dest: prepare_error update_loop_error)
  have e2: "\<And>conn. update_added conn changes = Inl (e, c) \<Longrightarrow> \<not> is_lookup_error e"
    by (auto simp: update_added_def executemany_insert_def
        split: if_splits sum.splits dest: prepare_error insert_loop_error)
  have e3: "\<And>conn. update_deleted conn df changes = Inl (e, c) \<Longrightarrow> \<not> is_lookup_error e"
    using a
    by (auto simp: update_deleted_def executemany_delete_def
        split: if_splits sum.splits dest: prepare_error delete_loop_error)
  from f show "\<not> is_lookup_error e"
    by (auto simp: update_data_def split: sum.splits dest: e1 e2 e3)
next
  fix e
  assume "is_lookup_error e"
  then show "\<not> is_sqlite_error e" by (cases e) simp_all
qed simp_all

theorem update_data_stale_positions_witness:
  "edited_rows stale_edit_changes \<noteq> [] \<and> (3, [''total_tops'' \<mapsto> Integer 4]) \<in>
     set (edited_rows stale_edit_changes) \<and> int (length (data sample_df)) \<le> 3 \<and>
   update_data sample_conn sample_df stale_edit_changes stale_edit_changes =
     Inl (IndexError, sample_conn) \<and>
   3 \<in> set (deleted_rows stale_delete_changes) \<and> \<not> in_snapshot sample_df 3 \<and>
   (\<exists>c. update_data sample_conn sample_df stale_delete_changes stale_delete_changes =
      Inl (KeyError, c)) \<and>
   view no_table_conn = None \<and> deleted_rows stale_only_changes = [3] \<and>
   update_data no_table_conn sample_df stale_only_changes stale_only_changes =
     Inl (OperationalError, no_table_conn) \<and>
   ''id'' \<in> set (columns sample_df) \<and>
   list_all (\<lambda>(i, delta). in_snapshot sample_df i) (edited_rows present_clash_changes) \<and>
   list_all (in_snapshot sample_df) (deleted_rows present_clash_changes) \<and>
   fst (projl (update_data sample_conn sample_df present_clash_changes present_clash_changes))
     = IntegrityError \<and>
   \<not> is_lookup_error IntegrityError"
proof -
  \<comment> \<open>an edit outside the index range\<close>
  have a1: "edited_rows stale_edit_changes \<noteq> []"
    "(3, [''total_tops'' \<mapsto> Integer 4]) \<in> set (edited_rows stale_edit_changes)"
    "int (length (data sample_df)) \<le> 3"
    by (simp_all add: stale_edit_changes_def sample_defs)
  then have a2: "edited_rows stale_edit_changes \<noteq> [] \<and>
    (\<exists>(i, delta) \<in> set (edited_rows stale_edit_changes).
        i < - int (length (data sample_df)) \<or> int (length (data sample_df)) \<le> i)"
    by blast
  from update_data_stale_positions [of stale_edit_changes stale_edit_changes sample_df
      sample_conn] a2
  have a: "update_data sample_conn sample_df stale_edit_changes stale_edit_changes =
     Inl (IndexError, sample_conn)"
    by blast
  \<comment> \<open>a delete outside the labels\<close>
  let ?c1 = "projr (update_edited sample_conn sample_df stale_delete_changes
                stale_delete_changes)"
  let ?t = "the (view ?c1)"
  have b1: "3 \<in> set (deleted_rows stale_delete_changes)" "\<not> in_snapshot sample_df 3"
    by (simp_all add: sample_defs in_snapshot_def)
  have b2: "update_edited sample_conn sample_df stale_delete_changes stale_delete_changes
      = Inr ?c1"
    "update_added ?c1 stale_delete_changes = Inr ?c1" "view ?c1 = Some ?t"
    by (simp_all add: sample_defs run_defs)
  have b3: "\<forall>i \<in> set (deleted_rows stale_delete_changes).
      in_snapshot sample_df i \<longrightarrow> int64 (row_id (snapshot_row sample_df i))"
    by (simp add: sample_defs in_snapshot_def snapshot_row_def int64_def)
  from b1 have b4: "\<exists>i \<in> set (deleted_rows stale_delete_changes). \<not> in_snapshot sample_df i"
    by blast
  from update_data_stale_positions
    [of stale_delete_changes stale_delete_changes sample_df sample_conn ?c1 ?c1 ?t]
    b2 b3 b4
  have b: "\<exists>c. update_data sample_conn sample_df stale_delete_changes stale_delete_changes =
      Inl (KeyError, c)"
    by blast
  \<comment> \<open>a delete when there is no table\<close>
  have d1: "view no_table_conn = None" "deleted_rows stale_only_changes = [3]"
    "deleted_rows stale_only_changes \<noteq> []"
    "update_edited no_table_conn sample_df stale_only_changes stale_only_changes =
       Inr no_table_conn"
    "update_added no_table_conn stale_only_changes = Inr no_table_conn"
    by (simp_all add: no_table_conn_def stale_only_changes_def update_edited_def
        update_added_def)
  from update_data_stale_positions
    [of stale_only_changes stale_only_changes sample_df no_table_conn no_table_conn
      no_table_conn] d1
  have d: "update_data no_table_conn sample_df stale_only_changes stale_only_changes =
     Inl (OperationalError, no_table_conn)"
    by blast
  \<comment> \<open>positions of the snapshot only\<close>
  have c1: "''id'' \<in> set (columns sample_df)"
    "list_all (\<lambda>(i, delta). in_snapshot sample_df i) (edited_rows present_clash_changes)"
    "list_all (in_snapshot sample_df) (deleted_rows present_clash_changes)"
    by (simp_all add: sample_defs present_clash_changes_def in_snapshot_def
        SCORE_CARD_COLUMNS_def)
  have "\<exists>c. update_data sample_conn sample_df present_clash_changes present_clash_changes
      = Inl (IntegrityError, c)"
    by (simp add: sample_defs run_defs present_clash_changes_def)
  then obtain c where c2:
    "update_data sample_conn sample_df present_clash_changes present_clash_changes
      = Inl (IntegrityError, c)"
    by blast
  from update_data_stale_positions
    [of present_clash_changes present_clash_changes sample_df sample_conn] c1 c2
  have c3: "\<not> is_lookup_error IntegrityError" by blast
  from a1 a b1 b d1(1,2) d c1 c2 c3 show ?thesis by simp
qed


end
